theory Spec2Isabelle
  imports Main "HOL-Library.Word"
begin

unbundle bit_operations_syntax

section \<open>The decoder's data, as the translator reads it\<close>

text \<open>
  Modelled from the spec: the header of the decoder, which declares the instruction record,
  the operand record and the enumerations of registers, mnemonics, operand types and
  addressing modes, is not among the sources. The types below have the fields that
  \<^verbatim>\<open>zydec.cpp\<close> reads, with the widths the decoder gives them, as the data model of the
  specification describes them. A register is the integer value of its enumerator (the
  translator indexes the name table with it). A mnemonic is identified by the name of its
  enumerator without the prefix \<^verbatim>\<open>ZYDIS_MNEMONIC_\<close>, so that every enumerator the
  translator does not name is a value of the type too. Of the operand types and the
  addressing modes, \<^verbatim>\<open>UNUSED\<close> and \<^verbatim>\<open>INVALID\<close> stand for every enumerator that
  \<^verbatim>\<open>zydec.cpp\<close> does not name. \<^verbatim>\<open>size_t\<close> and the 64-bit integers are \<open>64 word\<close>;
  counts and capacities, which are only compared and decreased, are \<open>nat\<close>.
\<close>

type_synonym ZydisRegister = nat

type_synonym ZydisMnemonic = string

text \<open>
  Modelled from the spec: the reserved "no register" sentinel is the first enumerator, and
  the first entry of the name table is its name.
\<close>

definition ZYDIS_REGISTER_NONE :: ZydisRegister where
  "ZYDIS_REGISTER_NONE = 0"

datatype ZydisOperandType =
    ZYDIS_OPERAND_TYPE_UNUSED
  | ZYDIS_OPERAND_TYPE_REGISTER
  | ZYDIS_OPERAND_TYPE_MEMORY
  | ZYDIS_OPERAND_TYPE_POINTER
  | ZYDIS_OPERAND_TYPE_IMMEDIATE

datatype ZydisMemoryOperandType =
    ZYDIS_MEMOP_TYPE_INVALID
  | ZYDIS_MEMOP_TYPE_MEM
  | ZYDIS_MEMOP_TYPE_AGEN
  | ZYDIS_MEMOP_TYPE_MIB

record ZydisDecodedOperandMem =
  mem_type :: ZydisMemoryOperandType
  mem_segment :: ZydisRegister
  mem_base :: ZydisRegister
  mem_index :: ZydisRegister
  mem_scale :: "8 word"
  disp_has_displacement :: bool
  disp_value :: "64 word"

record ZydisDecodedOperandImm =
  imm_is_signed :: bool
  imm_is_relative :: bool
  imm_value :: "64 word"

record ZydisDecodedOperand =
  op_type :: ZydisOperandType
  reg_value :: ZydisRegister
  mem :: ZydisDecodedOperandMem
  imm :: ZydisDecodedOperandImm

record ZydisDecodedInstruction =
  mnemonic :: ZydisMnemonic
  operand_count :: "8 word"

section \<open>Memory written by the translator\<close>

text \<open>
  The caller's character array, the cursor \<^verbatim>\<open>bufferPos\<close> as an offset into it, the
  counter \<^verbatim>\<open>remainingSize\<close>, and the cell behind \<^verbatim>\<open>pHasTranslation\<close>.
\<close>

record state =
  buffer :: "char list"
  bufferPos :: nat
  remainingSize :: nat
  hasTranslation :: bool

text \<open>
  What C leaves undefined is a value of its own: a store outside the local scratch array
  (with the offending index), a read of the scratch array that leaves it or meets a byte
  never written, a copy past the end of the caller's array, a read of an operand past the
  end of the caller's operand array (with the index), the negation of the least signed
  64-bit integer.
\<close>

datatype fault =
    ScratchStoreOutOfBounds int
  | ScratchReadInvalid
  | BufferStoreOutOfBounds
  | OperandReadOutOfBounds nat
  | SignedNegationOverflow

type_synonym writer = "state \<Rightarrow> fault + (bool \<times> state)"

definition NUL :: char where
  "NUL = CHR 0x00"

text \<open>The C string a character array holds: the bytes before the first terminator.\<close>

definition c_str :: "char list \<Rightarrow> string" where
  "c_str bytes = takeWhile (\<lambda>c. c \<noteq> NUL) bytes"

text \<open>
  \<^verbatim>\<open>ERROR_CHECK(a); rest\<close>: when \<^verbatim>\<open>a\<close> is false the function returns false at once.
\<close>

definition ERROR_CHECK :: "writer \<Rightarrow> writer \<Rightarrow> writer" where
  "ERROR_CHECK a rest st =
     (case a st of
        Inl f \<Rightarrow> Inl f
      | Inr (ok, st') \<Rightarrow> if \<not> ok then Inr (False, st') else rest st')"

definition return_bool :: "bool \<Rightarrow> writer" where
  "return_bool b st = Inr (b, st)"

section \<open>The buffer writer\<close>

definition zydec_WriteRaw :: "string \<Rightarrow> writer" where
  "zydec_WriteRaw text st =
     (let len = length text in
      if len > remainingSize st then Inr (False, st)
      else if bufferPos st + len + 1 > length (buffer st) then Inl BufferStoreOutOfBounds
      else Inr (True,
        st\<lparr>buffer := take (bufferPos st) (buffer st) @ text @ [NUL]
                        @ drop (bufferPos st + len + 1) (buffer st),
           remainingSize := remainingSize st - len,
           bufferPos := bufferPos st + len\<rparr>))"

section \<open>The numeric formatters\<close>

text \<open>
  A local \<^verbatim>\<open>char buffer[n]\<close>: \<open>None\<close> is a byte that was never written. The pointer
  \<^verbatim>\<open>bufFromEnd\<close> is an integer offset from the start of the array.
\<close>

type_synonym scratch = "char option list"

definition store :: "scratch \<Rightarrow> int \<Rightarrow> char \<Rightarrow> fault + scratch" where
  "store buf i c =
     (if 0 \<le> i \<and> i < int (length buf) then Inr (buf[nat i := Some c])
      else Inl (ScratchStoreOutOfBounds i))"

primrec cstr_of :: "scratch \<Rightarrow> string option" where
  "cstr_of [] = None"
| "cstr_of (x # xs) =
     (case x of
        None \<Rightarrow> None
      | Some c \<Rightarrow> if c = NUL then Some [] else map_option ((#) c) (cstr_of xs))"

definition read_cstr :: "scratch \<Rightarrow> int \<Rightarrow> string option" where
  "read_cstr buf i = (if 0 \<le> i then cstr_of (drop (nat i) buf) else None)"

text \<open>\<^verbatim>\<open>zydec_WriteRaw(pBufferPos, pRemainingSize, bufFromEnd)\<close>\<close>

definition WriteRaw_scratch :: "scratch \<Rightarrow> int \<Rightarrow> writer" where
  "WriteRaw_scratch buf i st =
     (case read_cstr buf i of
        None \<Rightarrow> Inl ScratchReadInvalid
      | Some text \<Rightarrow> zydec_WriteRaw text st)"

function WriteUInt_loop :: "64 word \<Rightarrow> int \<Rightarrow> scratch \<Rightarrow> fault + (64 word \<times> int \<times> scratch)" where
  "WriteUInt_loop tmp bufFromEnd buf =
     (if tmp \<ge> 10 then
        (case store buf bufFromEnd (char_of (of_char CHR ''0'' + unat (tmp mod 10))) of
           Inl f \<Rightarrow> Inl f
         | Inr buf' \<Rightarrow> WriteUInt_loop (tmp div 10) (bufFromEnd - 1) buf')
      else Inr (tmp, bufFromEnd, buf))"
  by pat_completeness auto
termination
  by (relation "measure (\<lambda>(tmp, p, buf). unat tmp)")
     (auto simp: unat_div word_le_nat_alt)

declare WriteUInt_loop.simps [simp del]

definition zydec_WriteUInt :: "64 word \<Rightarrow> writer" where
  "zydec_WriteUInt val st =
     (case store (replicate 20 None) (20 - 1) NUL of
        Inl f \<Rightarrow> Inl f
      | Inr buf0 \<Rightarrow>
     (case WriteUInt_loop val (20 - 2) buf0 of
        Inl f \<Rightarrow> Inl f
      | Inr (tmp, bufFromEnd, buf1) \<Rightarrow>
          if tmp \<noteq> 0 then
            (case store buf1 bufFromEnd (char_of (of_char CHR ''0'' + unat (tmp mod 10))) of
               Inl f \<Rightarrow> Inl f
             | Inr buf2 \<Rightarrow> WriteRaw_scratch buf2 bufFromEnd st)
          else WriteRaw_scratch buf1 (bufFromEnd + 1) st))"

definition lut :: string where
  "lut = ''0123456789ABCDEF''"

function WriteHex_loop :: "64 word \<Rightarrow> int \<Rightarrow> scratch \<Rightarrow> fault + (64 word \<times> int \<times> scratch)" where
  "WriteHex_loop tmp bufFromEnd buf =
     (if tmp \<ge> 0xF then
        (case store buf bufFromEnd (lut ! unat (tmp AND 0xF)) of
           Inl f \<Rightarrow> Inl f
         | Inr buf' \<Rightarrow> WriteHex_loop (drop_bit 4 tmp) (bufFromEnd - 1) buf')
      else Inr (tmp, bufFromEnd, buf))"
  by pat_completeness auto
termination
  by (relation "measure (\<lambda>(tmp, p, buf). unat tmp)")
     (auto simp: drop_bit_eq_div unat_div word_le_nat_alt)

declare WriteHex_loop.simps [simp del]

definition zydec_WriteHex :: "64 word \<Rightarrow> writer" where
  "zydec_WriteHex val st =
     (case store (replicate (2 + 2 * 8 + 1) None) (2 + 2 * 8 + 1 - 1) NUL of
        Inl f \<Rightarrow> Inl f
      | Inr buf0 \<Rightarrow>
     (case WriteHex_loop val (2 + 2 * 8 + 1 - 2) buf0 of
        Inl f \<Rightarrow> Inl f
      | Inr (tmp, bufFromEnd, buf1) \<Rightarrow>
     (case (if tmp \<noteq> 0 then
              (case store buf1 bufFromEnd (lut ! unat (tmp AND 0xF)) of
                 Inl f \<Rightarrow> Inl f
               | Inr buf2 \<Rightarrow> Inr (bufFromEnd - 1, buf2))
            else Inr (bufFromEnd, buf1)) of
        Inl f \<Rightarrow> Inl f
      | Inr (bufFromEnd2, buf3) \<Rightarrow>
     (case store buf3 bufFromEnd2 CHR ''x'' of
        Inl f \<Rightarrow> Inl f
      | Inr buf4 \<Rightarrow>
     (case store buf4 (bufFromEnd2 - 1) CHR ''0'' of
        Inl f \<Rightarrow> Inl f
      | Inr buf5 \<Rightarrow> WriteRaw_scratch buf5 (bufFromEnd2 - 1) st)))))"

text \<open>
  The argument \<^verbatim>\<open>(uint64_t)-value\<close> of the call in the negative branch negates a signed
  64-bit integer before the conversion: at the least value the negation overflows, which C
  leaves undefined. It is evaluated after the sign has been written.
\<close>

definition zydec_WriteInt :: "64 word \<Rightarrow> writer" where
  "zydec_WriteInt val =
     (if sint val < 0 then
        ERROR_CHECK (zydec_WriteRaw ''-'')
          (if sint val = - (2 ^ 63) then (\<lambda>st. Inl SignedNegationOverflow)
           else zydec_WriteUInt (- val))
      else zydec_WriteUInt val)"

section \<open>The register resolver\<close>

text \<open>\<^verbatim>\<open>RegisterNameLut\<close>, in the order of the source; entry 0 belongs to "no register".\<close>

definition RegisterNameLut :: "string list" where
  "RegisterNameLut =
    ['''', ''(i8)a'', ''(i8)c'', ''(i8)d'', ''(i8)b'', ''(i8)(a >> 8)'', ''(i8)(c >> 8)'',
     ''(i8)(d >> 8)'', ''(i8)(b >> 8)'', ''(i8)stack_pointer'', ''(i8)bp'', ''(i8)si'',
     ''(i8)di'', ''(i8)r8'', ''(i8)r9'', ''(i8)r10'', ''(i8)r11'', ''(i8)r12'', ''(i8)r13'',
     ''(i8)r14'', ''(i8)r15'', ''(i16)a'', ''(i16)c'', ''(i16)d'', ''(i16)b'',
     ''(i16)stack_pointer'', ''(i16)bp'', ''(i16)si'', ''(i16)di'', ''(i16)r8'', ''(i16)r9'',
     ''(i16)r10'', ''(i16)r11'', ''(i16)r12'', ''(i16)r13'', ''(i16)r14'', ''(i16)r15'',
     ''(i32)ax'', ''(i32)cx'', ''(i32)dx'', ''(i32)bx'', ''(i32)stack_pointer'', ''(i32)bp'',
     ''(i32)si'', ''(i32)di'', ''(i32)r8'', ''(i32)r9'', ''(i32)r10'', ''(i32)r11'',
     ''(i32)r12'', ''(i32)r13'', ''(i32)r14'', ''(i32)r15'', ''(i64)a'', ''(i64)c'',
     ''(i64)d'', ''(i64)b'', ''(i64)stack_pointer'', ''(i64)bp'', ''(i64)si'', ''(i64)di'',
     ''(i64)r8'', ''(i64)r9'', ''(i64)r10'', ''(i64)r11'', ''(i64)r12'', ''(i64)r13'',
     ''(i64)r14'', ''(i64)r15'', ''(float)s0'', ''(float)s1'', ''(float)s2'', ''(float)s3'',
     ''(float)s4'', ''(float)s5'', ''(float)s6'', ''(float)s7'', ''x87control'', ''x87status'',
     ''x87tag'', ''(float)mm0'', ''(float)mm1'', ''(float)mm2'', ''(float)mm3'',
     ''(float)mm4'', ''(float)mm5'', ''(float)mm6'', ''(float)mm7'', ''(m128)x0'',
     ''(m128)x1'', ''(m128)x2'', ''(m128)x3'', ''(m128)x4'', ''(m128)x5'', ''(m128)x6'',
     ''(m128)x7'', ''(m128)x8'', ''(m128)x9'', ''(m128)x10'', ''(m128)x11'', ''(m128)x12'',
     ''(m128)x13'', ''(m128)x14'', ''(m128)x15'', ''(m128)x16'', ''(m128)x17'', ''(m128)x18'',
     ''(m128)x19'', ''(m128)x20'', ''(m128)x21'', ''(m128)x22'', ''(m128)x23'', ''(m128)x24'',
     ''(m128)x25'', ''(m128)x26'', ''(m128)x27'', ''(m128)x28'', ''(m128)x29'', ''(m128)x30'',
     ''(m128)x31'', ''(m256)y0'', ''(m256)y1'', ''(m256)y2'', ''(m256)y3'', ''(m256)y4'',
     ''(m256)y5'', ''(m256)y6'', ''(m256)y7'', ''(m256)y8'', ''(m256)y9'', ''(m256)y10'',
     ''(m256)y11'', ''(m256)y12'', ''(m256)y13'', ''(m256)y14'', ''(m256)y15'', ''(m256)y16'',
     ''(m256)y17'', ''(m256)y18'', ''(m256)y19'', ''(m256)y20'', ''(m256)y21'', ''(m256)y22'',
     ''(m256)y23'', ''(m256)y24'', ''(m256)y25'', ''(m256)y26'', ''(m256)y27'', ''(m256)y28'',
     ''(m256)y29'', ''(m256)y30'', ''(m256)y31'', ''(m512)z0'', ''(m512)z1'', ''(m512)z2'',
     ''(m512)z3'', ''(m512)z4'', ''(m512)z5'', ''(m512)z6'', ''(m512)z7'', ''(m512)z8'',
     ''(m512)z9'', ''(m512)z10'', ''(m512)z11'', ''(m512)z12'', ''(m512)z13'', ''(m512)z14'',
     ''(m512)z15'', ''(m512)z16'', ''(m512)z17'', ''(m512)z18'', ''(m512)z19'', ''(m512)z20'',
     ''(m512)z21'', ''(m512)z22'', ''(m512)z23'', ''(m512)z24'', ''(m512)z25'', ''(m512)z26'',
     ''(m512)z27'', ''(m512)z28'', ''(m512)z29'', ''(m512)z30'', ''(m512)z31'',
     ''(matrix_tile)t0'', ''(matrix_tile)t1'', ''(matrix_tile)t2'', ''(matrix_tile)t3'',
     ''(matrix_tile)t4'', ''(matrix_tile)t5'', ''(matrix_tile)t6'', ''(matrix_tile)t7'',
     ''flags'', ''eflags'', ''rflags'', ''instruction_pointer'', ''instruction_pointer32'',
     ''instruction_pointer64'', ''extra_segment'', ''code_segment'', ''stack_segment'',
     ''data_segment'', ''f_segment'', ''g_segment'', ''table_gdtr'', ''table_ldtr'',
     ''table_idtr'', ''table_tr'', ''test_tr0'', ''test_tr1'', ''test_tr2'', ''test_tr3'',
     ''test_tr4'', ''test_tr5'', ''test_tr6'', ''test_tr7'', ''control_cr0'', ''control_cr1'',
     ''control_cr2'', ''control_cr3'', ''control_cr4'', ''control_cr5'', ''control_cr6'',
     ''control_cr7'', ''control_cr8'', ''control_cr9'', ''control_cr10'', ''control_cr11'',
     ''control_cr12'', ''control_cr13'', ''control_cr14'', ''control_cr15'', ''debug_dr0'',
     ''debug_dr1'', ''debug_dr2'', ''debug_dr3'', ''debug_dr4'', ''debug_dr5'', ''debug_dr6'',
     ''debug_dr7'', ''debug_dr8'', ''debug_dr9'', ''debug_dr10'', ''debug_dr11'',
     ''debug_dr12'', ''debug_dr13'', ''debug_dr14'', ''debug_dr15'', ''mask_k0'', ''mask_k1'',
     ''mask_k2'', ''mask_k3'', ''mask_k4'', ''mask_k5'', ''mask_k6'', ''mask_k7'',
     ''bound_bnd0'', ''bound_bnd1'', ''bound_bnd2'', ''bound_bnd3'', ''bound_bndcfg'',
     ''bound_bndstatus'', ''mxcsr'', ''pkru'', ''xcr0'', ''uif'']"

definition zydec_WriteRegister :: "ZydisRegister \<Rightarrow> writer" where
  "zydec_WriteRegister reg =
     (if reg \<ge> length RegisterNameLut then return_bool False
      else ERROR_CHECK (zydec_WriteRaw (RegisterNameLut ! reg)) (return_bool True))"

section \<open>The operand formatter\<close>

definition zydec_WriteOperand :: "ZydisDecodedOperand \<Rightarrow> 64 word \<Rightarrow> writer" where
  "zydec_WriteOperand pOperand virtualAddress =
     (case op_type pOperand of
        ZYDIS_OPERAND_TYPE_REGISTER \<Rightarrow>
          ERROR_CHECK (zydec_WriteRegister (reg_value pOperand)) (return_bool True)
      | ZYDIS_OPERAND_TYPE_MEMORY \<Rightarrow>
          ERROR_CHECK (zydec_WriteRaw
            (if mem_type (mem pOperand) = ZYDIS_MEMOP_TYPE_AGEN then ''('' else ''*(''))
          (case mem_type (mem pOperand) of
             ZYDIS_MEMOP_TYPE_MEM \<Rightarrow>
               ERROR_CHECK (zydec_WriteRegister (mem_segment (mem pOperand)))
              (ERROR_CHECK (zydec_WriteRaw '': '')
              (ERROR_CHECK (zydec_WriteRegister (mem_base (mem pOperand)))
              (ERROR_CHECK
                (if disp_has_displacement (mem pOperand) then
                   ERROR_CHECK (zydec_WriteRaw '' + '')
                  (ERROR_CHECK (zydec_WriteInt (disp_value (mem pOperand)))
                  (return_bool True))
                 else if mem_index (mem pOperand) \<noteq> ZYDIS_REGISTER_NONE then
                   ERROR_CHECK (zydec_WriteRaw '' + '')
                  (ERROR_CHECK
                    (if mem_scale (mem pOperand) \<noteq> 1 then zydec_WriteRaw ''(''
                     else return_bool True)
                  (ERROR_CHECK (zydec_WriteRegister (mem_index (mem pOperand)))
                  (if mem_scale (mem pOperand) \<noteq> 1 then
                     ERROR_CHECK (zydec_WriteRaw '' * '')
                    (ERROR_CHECK (zydec_WriteUInt (ucast (mem_scale (mem pOperand))))
                    (ERROR_CHECK (zydec_WriteRaw '')'')
                    (return_bool True)))
                   else return_bool True)))
                 else return_bool True)
              (ERROR_CHECK (zydec_WriteRaw '')'')
              (return_bool True)))))
           | ZYDIS_MEMOP_TYPE_MIB \<Rightarrow>
               ERROR_CHECK (zydec_WriteRegister (mem_segment (mem pOperand)))
              (ERROR_CHECK (zydec_WriteRaw '': '')
              (ERROR_CHECK (zydec_WriteRegister (mem_base (mem pOperand)))
              (ERROR_CHECK
                (if disp_has_displacement (mem pOperand) then
                   ERROR_CHECK (zydec_WriteRaw '' + '')
                  (ERROR_CHECK (zydec_WriteInt (disp_value (mem pOperand)))
                  (return_bool True))
                 else return_bool True)
              (ERROR_CHECK (zydec_WriteRaw '')'')
              (return_bool True)))))
           | ZYDIS_MEMOP_TYPE_AGEN \<Rightarrow>
               ERROR_CHECK (zydec_WriteRegister (mem_segment (mem pOperand)))
              (ERROR_CHECK (zydec_WriteRaw '': '')
              (ERROR_CHECK (zydec_WriteRegister (mem_base (mem pOperand)))
              (ERROR_CHECK
                (if disp_has_displacement (mem pOperand) then
                   ERROR_CHECK (zydec_WriteRaw '' + '')
                  (ERROR_CHECK (zydec_WriteInt (disp_value (mem pOperand)))
                  (return_bool True))
                 else return_bool True)
              (ERROR_CHECK (zydec_WriteRaw '')'')
              (return_bool True)))))
           | ZYDIS_MEMOP_TYPE_INVALID \<Rightarrow> return_bool False)
      | ZYDIS_OPERAND_TYPE_IMMEDIATE \<Rightarrow>
          (if imm_is_relative (imm pOperand) then
             ERROR_CHECK (zydec_WriteHex (virtualAddress + imm_value (imm pOperand)))
               (return_bool True)
           else if imm_is_signed (imm pOperand) then
             ERROR_CHECK (zydec_WriteInt (imm_value (imm pOperand))) (return_bool True)
           else
             ERROR_CHECK (zydec_WriteUInt (imm_value (imm pOperand))) (return_bool True))
      | ZYDIS_OPERAND_TYPE_UNUSED \<Rightarrow> return_bool False
      | ZYDIS_OPERAND_TYPE_POINTER \<Rightarrow> return_bool False)"

section \<open>The mnemonic translator\<close>

text \<open>\<^verbatim>\<open>&pOperands[i]\<close>, read by \<^verbatim>\<open>zydec_WriteOperand\<close> or for its \<^verbatim>\<open>type\<close>.\<close>

definition operand_at :: "ZydisDecodedOperand list \<Rightarrow> nat \<Rightarrow> fault + ZydisDecodedOperand" where
  "operand_at pOperands i =
     (if i < length pOperands then Inr (pOperands ! i) else Inl (OperandReadOutOfBounds i))"

definition WriteOperand_at :: "ZydisDecodedOperand list \<Rightarrow> nat \<Rightarrow> 64 word \<Rightarrow> writer" where
  "WriteOperand_at pOperands i virtualAddress st =
     (case operand_at pOperands i of
        Inl f \<Rightarrow> Inl f
      | Inr pOperand \<Rightarrow> zydec_WriteOperand pOperand virtualAddress st)"

text \<open>The statements after the \<^verbatim>\<open>switch\<close>, reached by every \<^verbatim>\<open>break\<close>.\<close>

definition break_switch :: writer where
  "break_switch = ERROR_CHECK (zydec_WriteRaw '';'') (return_bool True)"

text \<open>
  The loop \<^verbatim>\<open>for (operandIndex = 1; operandIndex < pInstruction->operand_count; operandIndex++)\<close>,
  over the indices it visits.
\<close>

primrec operand_loop :: "ZydisDecodedOperand list \<Rightarrow> 64 word \<Rightarrow> nat list \<Rightarrow> writer" where
  "operand_loop pOperands virtualAddress [] = return_bool True"
| "operand_loop pOperands virtualAddress (operandIndex # rest) =
     ERROR_CHECK (if operandIndex > 1 then zydec_WriteRaw '', '' else return_bool True)
    (ERROR_CHECK (WriteOperand_at pOperands operandIndex virtualAddress)
    (operand_loop pOperands virtualAddress rest))"

definition operand_indices :: "ZydisDecodedInstruction \<Rightarrow> nat list" where
  "operand_indices pInstruction = [1 ..< unat (operand_count pInstruction)]"

text \<open>The inner \<^verbatim>\<open>switch\<close> of the aligned moves.\<close>

definition aligned_suffix :: "ZydisMnemonic \<Rightarrow> string" where
  "aligned_suffix m =
     (if m = ''MOVAPS'' then ''_ps(''
      else if m = ''MOVAPD'' then ''_pd(''
      else if m = ''VMOVDQA'' then ''_si(''
      else if m = ''VMOVDQA32'' then ''_epi32(''
      else if m = ''VMOVDQA64'' then ''_epi64(''
      else ''('')"

text \<open>The inner \<^verbatim>\<open>switch\<close> of the unaligned moves.\<close>

definition unaligned_suffix :: "ZydisMnemonic \<Rightarrow> string" where
  "unaligned_suffix m =
     (if m = ''MOVAPS'' then ''_ps(''
      else if m = ''MOVAPD'' then ''_pd(''
      else if m = ''MOVQ'' then ''_si64(''
      else if m = ''LDDQU'' then ''_cross_cache_line_si(''
      else if m = ''VMOVDQU'' then ''_si(''
      else if m = ''VMOVDQU16'' then ''_epi16(''
      else if m = ''VMOVDQU32'' then ''_epi32(''
      else if m = ''VMOVDQU64'' then ''_epi64(''
      else if m = ''VMOVDQU8'' then ''_epi8(''
      else ''('')"

text \<open>
  The body shared by the two move families, from the test of the operand types to the
  \<^verbatim>\<open>break\<close>; \<open>store_name\<close>, \<open>load_name\<close> and \<open>suffix\<close> are what the two copies of the
  block differ in.
\<close>

definition move_family :: "string \<Rightarrow> string \<Rightarrow> string \<Rightarrow> ZydisDecodedInstruction
    \<Rightarrow> ZydisDecodedOperand list \<Rightarrow> 64 word \<Rightarrow> writer" where
  "move_family store_name load_name suffix pInstruction pOperands virtualAddress st =
     (let tail = (\<lambda>isReg2RegMove.
            ERROR_CHECK (if \<not> isReg2RegMove then zydec_WriteRaw suffix else return_bool True)
           (ERROR_CHECK (WriteOperand_at pOperands 0 virtualAddress)
           (ERROR_CHECK (if isReg2RegMove then zydec_WriteRaw '' = '' else zydec_WriteRaw '', '')
           (ERROR_CHECK (operand_loop pOperands virtualAddress (operand_indices pInstruction))
           (ERROR_CHECK (if \<not> isReg2RegMove then zydec_WriteRaw '')'' else return_bool True)
            break_switch)))))
      in
      case operand_at pOperands 0 of
        Inl f \<Rightarrow> Inl f
      | Inr op0 \<Rightarrow>
          if op_type op0 = ZYDIS_OPERAND_TYPE_MEMORY \<or> op_type op0 = ZYDIS_OPERAND_TYPE_POINTER
          then ERROR_CHECK (zydec_WriteRaw store_name) (tail False) st
          else
            (case operand_at pOperands 1 of
               Inl f \<Rightarrow> Inl f
             | Inr op1 \<Rightarrow>
                 if op_type op1 = ZYDIS_OPERAND_TYPE_MEMORY
                    \<or> op_type op1 = ZYDIS_OPERAND_TYPE_POINTER
                 then ERROR_CHECK (zydec_WriteRaw load_name) (tail False) st
                 else tail True st))"

definition aligned_moves :: "ZydisMnemonic list" where
  "aligned_moves = [''MOVAPS'', ''MOVAPD'', ''VMOVDQA'', ''VMOVDQA32'', ''VMOVDQA64'']"

definition unaligned_moves :: "ZydisMnemonic list" where
  "unaligned_moves =
    [''MOVUPS'', ''MOVUPD'', ''MOVQ'', ''LDDQU'', ''VMOVD'', ''VMOVDQU'', ''VMOVDQU16'',
     ''VMOVDQU32'', ''VMOVDQU64'', ''VMOVDQU8'']"

text \<open>The case labels of the vector family, in the order of the source.\<close>

definition vector_family :: "ZydisMnemonic list" where
  "vector_family =
    [''PAND'', ''VPAND'', ''VPANDQ'', ''VPANDD'', ''PANDN'', ''VPANDN'', ''VPANDNQ'',
     ''VPANDND'', ''PCMPEQB'', ''PCMPEQW'', ''PCMPEQD'', ''PCMPEQQ'', ''VPCMPEQB'',
     ''VPCMPEQW'', ''VPCMPEQD'', ''VPCMPEQQ'', ''PCMPGTB'', ''PCMPGTW'', ''PCMPGTD'',
     ''PCMPGTQ'', ''VPCMPGTB'', ''VPCMPGTW'', ''VPCMPGTD'', ''VPCMPGTQ'', ''PACKUSWB'',
     ''PACKUSDW'', ''VPACKUSWB'', ''VPACKUSDW'', ''PACKSSWB'', ''PACKSSDW'', ''VPACKSSWB'',
     ''VPACKSSDW'', ''PADDB'', ''PADDW'', ''PADDD'', ''PADDQ'', ''VPADDB'', ''VPADDW'',
     ''VPADDD'', ''VPADDQ'', ''PADDSB'', ''PADDSW'', ''VPADDSB'', ''VPADDSW'', ''EMMS'',
     ''PMADDWD'', ''VPMADDWD'', ''PMULHW'', ''VPMULHW'', ''PMULLW'', ''VPMULLW'', ''POR'',
     ''VPOR'', ''VPORD'', ''VPORQ'', ''PABSW'', ''VPABSW'', ''PABSB'', ''VPABSB'', ''PABSD'',
     ''VPABSD'', ''ADDSUBPS'', ''VADDSUBPS'', ''ADDSUBPD'', ''VADDSUBPD'', ''PALIGNR'',
     ''VPALIGNR'', ''PAVGB'', ''VPAVGB'', ''PAVGW'', ''VPAVGW'', ''PBLENDW'', ''VPBLENDW'',
     ''PBLENDVB'', ''VPBLENDVB'', ''VPBLENDD'', ''BLENDPS'', ''VBLENDPS'', ''BLENDPD'',
     ''VBLENDPD'', ''BLENDVPS'', ''VBLENDVPS'', ''BLENDVPD'', ''VBLENDVPD'',
     ''VBROADCASTF128'', ''VBROADCASTF32X2'', ''VBROADCASTF32X4'', ''VBROADCASTF32X8'',
     ''VBROADCASTF64X2'', ''VBROADCASTF64X4'', ''VBROADCASTI128'', ''VBROADCASTI32X2'',
     ''VBROADCASTI32X4'', ''VBROADCASTI32X8'', ''VBROADCASTI64X2'', ''VBROADCASTI64X4'',
     ''VBROADCASTSD'', ''VBROADCASTSS'', ''VPBROADCASTB'', ''VPBROADCASTD'',
     ''VPBROADCASTMB2Q'', ''VPBROADCASTMW2D'', ''VPBROADCASTQ'', ''VPBROADCASTW'']"

text \<open>
  The inner \<^verbatim>\<open>switch\<close> of the vector family: each case writes one name; labels that share
  a body are listed one after the other.
\<close>

definition intrinsic_names :: "(ZydisMnemonic \<times> string) list" where
  "intrinsic_names =
    [(''PAND'', ''_mm_and_si(''), (''VPAND'', ''_mm_and_si(''),
     (''VPANDQ'', ''_mm_and_epi64(''), (''VPANDD'', ''_mm_and_epi32(''),
     (''PANDN'', ''_mm_andnot_si(''), (''VPANDN'', ''_mm_andnot_si(''),
     (''VPANDNQ'', ''_mm_andnot_epi64(''), (''VPANDND'', ''_mm_andnot_epi32(''),
     (''PCMPEQB'', ''_mm_cmpeq_epi8(''), (''VPCMPEQB'', ''_mm_cmpeq_epi8(''),
     (''PCMPEQW'', ''_mm_cmpeq_epi16(''), (''VPCMPEQW'', ''_mm_cmpeq_epi16(''),
     (''PCMPEQD'', ''_mm_cmpeq_epi32(''), (''VPCMPEQD'', ''_mm_cmpeq_epi32(''),
     (''PCMPEQQ'', ''_mm_cmpeq_epi64(''), (''VPCMPEQQ'', ''_mm_cmpeq_epi64(''),
     (''PCMPGTB'', ''_mm_cmpgt_epi8(''), (''VPCMPGTB'', ''_mm_cmpgt_epi8(''),
     (''PCMPGTW'', ''_mm_cmpgt_epi16(''), (''VPCMPGTW'', ''_mm_cmpgt_epi16(''),
     (''PCMPGTD'', ''_mm_cmpgt_epi32(''), (''VPCMPGTD'', ''_mm_cmpgt_epi32(''),
     (''PCMPGTQ'', ''_mm_cmpgt_epi64(''), (''VPCMPGTQ'', ''_mm_cmpgt_epi64(''),
     (''PACKUSWB'', ''_mm_packus_epu16_to_epi8(''),
     (''VPACKUSWB'', ''_mm_packus_epu16_to_epi8(''),
     (''PACKUSDW'', ''_mm_packus_epu32_to_epi16(''),
     (''VPACKUSDW'', ''_mm_packus_epu32_to_epi16(''),
     (''PACKSSWB'', ''_mm_packs_epu16_to_epi8(''),
     (''VPACKSSWB'', ''_mm_packs_epu16_to_epi8(''),
     (''PACKSSDW'', ''_mm_packs_epu32_to_epi16(''),
     (''VPACKSSDW'', ''_mm_packs_epu32_to_epi16(''), (''PADDB'', ''_mm_add_epi8(''),
     (''VPADDB'', ''_mm_add_epi8(''), (''PADDW'', ''_mm_add_epi16(''),
     (''VPADDW'', ''_mm_add_epi16(''), (''PADDD'', ''_mm_add_epi32(''),
     (''VPADDD'', ''_mm_add_epi32(''), (''PADDQ'', ''_mm_add_epi64(''),
     (''VPADDQ'', ''_mm_add_epi64(''), (''PADDSB'', ''_mm_adds_epi8(''),
     (''PADDSW'', ''_mm_adds_epi8(''), (''VPADDSB'', ''_mm_adds_epi16(''),
     (''VPADDSW'', ''_mm_adds_epi16(''), (''EMMS'', ''_mm_empty(''),
     (''PMADDWD'', ''_mm_pmadd_epi16(''), (''VPMADDWD'', ''_mm_pmadd_epi16(''),
     (''PMULHW'', ''_mm_mulhi_epi16(''), (''VPMULHW'', ''_mm_mulhi_epi16(''),
     (''PMULLW'', ''_mm_mullo_epi16(''), (''VPMULLW'', ''_mm_mullo_epi16(''),
     (''POR'', ''_mm_or_si(''), (''VPOR'', ''_mm_or_si(''), (''VPORD'', ''_mm_or_epi32(''),
     (''VPORQ'', ''_mm_or_epi64(''), (''PABSB'', ''_mm_abs_epi16(''),
     (''VPABSB'', ''_mm_abs_epi16(''), (''PABSW'', ''_mm_abs_epi16(''),
     (''VPABSW'', ''_mm_abs_epi16(''), (''PABSD'', ''_mm_abs_epi32(''),
     (''VPABSD'', ''_mm_abs_epi32(''), (''ADDSUBPS'', ''_mm_addsub_ps(''),
     (''VADDSUBPS'', ''_mm_addsub_ps(''), (''ADDSUBPD'', ''_mm_addsub_pd(''),
     (''VADDSUBPD'', ''_mm_addsub_pd(''), (''PALIGNR'', ''_mm_alignr_epi8(''),
     (''VPALIGNR'', ''_mm_alignr_epi8(''), (''PAVGB'', ''_mm_avg_epu8(''),
     (''VPAVGB'', ''_mm_avg_epu8(''), (''PAVGW'', ''_mm_avg_epu16(''),
     (''VPAVGW'', ''_mm_avg_epu16(''), (''PBLENDW'', ''_mm_blend_epi16(''),
     (''VPBLENDW'', ''_mm_blend_epi16(''), (''VPBLENDD'', ''_mm_blend_epi32(''),
     (''BLENDPS'', ''_mm_blend_ps(''), (''VBLENDPS'', ''_mm_blend_ps(''),
     (''BLENDPD'', ''_mm_blend_pd(''), (''VBLENDPD'', ''_mm_blend_pd(''),
     (''PBLENDVB'', ''_mm_blendv_epi8(''), (''VPBLENDVB'', ''_mm_blendv_epi8(''),
     (''BLENDVPS'', ''_mm_blendv_ps(''), (''VBLENDVPS'', ''_mm_blendv_ps(''),
     (''BLENDVPD'', ''_mm_blendv_pd(''), (''VBLENDVPD'', ''_mm_blendv_pd(''),
     (''VBROADCASTF128'', ''_mm_broadcast_f128(''),
     (''VBROADCASTF32X2'', ''_mm_broadcast_f32x2(''),
     (''VBROADCASTF32X4'', ''_mm_broadcast_f32x4(''),
     (''VBROADCASTF32X8'', ''_mm_broadcast_f32x8(''),
     (''VBROADCASTF64X2'', ''_mm_broadcast_f64x2(''),
     (''VBROADCASTF64X4'', ''_mm_broadcast_f64x4(''),
     (''VBROADCASTI128'', ''_mm_broadcastsi128_si256(''),
     (''VBROADCASTI32X2'', ''_mm_broadcast_i32x2(''),
     (''VBROADCASTI32X4'', ''_mm_broadcast_i32x4(''),
     (''VBROADCASTI32X8'', ''_mm_broadcast_i32x8(''),
     (''VBROADCASTI64X2'', ''_mm_broadcast_i64x2(''),
     (''VBROADCASTI64X4'', ''_mm_broadcast_i64x4(''),
     (''VBROADCASTSD'', ''_mm_broadcast_sd(''), (''VBROADCASTSS'', ''_mm_broadcast_ss(''),
     (''VPBROADCASTB'', ''_mm_broadcast_epi8(''), (''VPBROADCASTW'', ''_mm_broadcast_epi16(''),
     (''VPBROADCASTD'', ''_mm_broadcast_epi32(''),
     (''VPBROADCASTQ'', ''_mm_broadcast_epi64(''),
     (''VPBROADCASTMB2Q'', ''_mm_broadcastmb_epi64(''),
     (''VPBROADCASTMW2D'', ''_mm_broadcastmw_epi32('')]"

definition intrinsic_name :: "ZydisMnemonic \<Rightarrow> string" where
  "intrinsic_name m = (case map_of intrinsic_names m of Some name \<Rightarrow> name | None \<Rightarrow> ''_mm_??_('')"

definition translate_switch :: "ZydisDecodedInstruction \<Rightarrow> ZydisDecodedOperand list \<Rightarrow> 64 word
    \<Rightarrow> writer" where
  "translate_switch pInstruction pOperands virtualAddress =
     (let m = mnemonic pInstruction in
      if m = ''MOV'' then
         ERROR_CHECK (WriteOperand_at pOperands 0 virtualAddress)
        (ERROR_CHECK (zydec_WriteRaw '' = '')
        (ERROR_CHECK (WriteOperand_at pOperands 1 virtualAddress)
        break_switch))
      else if m = ''LEA'' then
         ERROR_CHECK (WriteOperand_at pOperands 0 virtualAddress)
        (ERROR_CHECK (zydec_WriteRaw '' = &'')
        (ERROR_CHECK (WriteOperand_at pOperands 1 virtualAddress)
        break_switch))
      else if m = ''TEST'' \<or> m = ''CMP'' then
         ERROR_CHECK (zydec_WriteRaw ''compare('')
        (ERROR_CHECK (WriteOperand_at pOperands 0 virtualAddress)
        (ERROR_CHECK (zydec_WriteRaw '', '')
        (ERROR_CHECK (WriteOperand_at pOperands 1 virtualAddress)
        (if m = ''TEST'' then
           ERROR_CHECK (zydec_WriteRaw '') // set carry_flag, parity_flag, zero_flag'')
             (return_bool True)
         else if m = ''CMP'' then
           ERROR_CHECK (zydec_WriteRaw
             '') // set carry_flag, overflow_flag, signed_flag, zero_flag, aux_carry_flag and parity_flag'')
             (return_bool True)
         else return_bool False))))
      else if m = ''CALL'' then
         ERROR_CHECK (zydec_WriteRaw ''('')
        (ERROR_CHECK (WriteOperand_at pOperands 0 virtualAddress)
        (ERROR_CHECK (zydec_WriteRaw '')()'')
        break_switch))
      else if m = ''JMP'' then
         ERROR_CHECK (zydec_WriteRaw ''goto '')
        (ERROR_CHECK (WriteOperand_at pOperands 0 virtualAddress)
        break_switch)
      else if m = ''JB'' then
         ERROR_CHECK (zydec_WriteRaw ''if (carry_flag) goto '')
        (ERROR_CHECK (WriteOperand_at pOperands 0 virtualAddress)
        (ERROR_CHECK (zydec_WriteRaw ''; // if below'')
        (return_bool True)))
      else if m = ''JBE'' then
         ERROR_CHECK (zydec_WriteRaw ''if (carry_flag || zero_flag) goto '')
        (ERROR_CHECK (WriteOperand_at pOperands 0 virtualAddress)
        (ERROR_CHECK (zydec_WriteRaw ''; // if below or equal'')
        (return_bool True)))
      else if m = ''JCXZ'' then
         ERROR_CHECK (zydec_WriteRaw ''if ((u16)c == 0) goto '')
        (ERROR_CHECK (WriteOperand_at pOperands 0 virtualAddress)
        break_switch)
      else if m = ''JECXZ'' then
         ERROR_CHECK (zydec_WriteRaw ''if ((u32)c == 0) goto '')
        (ERROR_CHECK (WriteOperand_at pOperands 0 virtualAddress)
        break_switch)
      else if m = ''JL'' then
         ERROR_CHECK (zydec_WriteRaw ''if (sign_flag != overflow_flag) goto '')
        (ERROR_CHECK (WriteOperand_at pOperands 0 virtualAddress)
        (ERROR_CHECK (zydec_WriteRaw ''; // if less'')
        (return_bool True)))
      else if m = ''JLE'' then
         ERROR_CHECK (zydec_WriteRaw ''if (zero_flag || sign_flag != overflow_flag) goto '')
        (ERROR_CHECK (WriteOperand_at pOperands 0 virtualAddress)
        (ERROR_CHECK (zydec_WriteRaw ''; // if less or equal'')
        (return_bool True)))
      else if m = ''JNB'' then
         ERROR_CHECK (zydec_WriteRaw ''if (!carry_flag) goto '')
        (ERROR_CHECK (WriteOperand_at pOperands 0 virtualAddress)
        (ERROR_CHECK (zydec_WriteRaw ''; // if not below'')
        (return_bool True)))
      else if m = ''JNBE'' then
         ERROR_CHECK (zydec_WriteRaw ''if (!carry_flag && !zero_flag) goto '')
        (ERROR_CHECK (WriteOperand_at pOperands 0 virtualAddress)
        (ERROR_CHECK (zydec_WriteRaw ''; // if not below or equal'')
        (return_bool True)))
      else if m = ''JNL'' then
         ERROR_CHECK (zydec_WriteRaw ''if (sign_flag && overflow_flag) goto '')
        (ERROR_CHECK (WriteOperand_at pOperands 0 virtualAddress)
        (ERROR_CHECK (zydec_WriteRaw ''; // if not less'')
        (return_bool True)))
      else if m = ''JNLE'' then
         ERROR_CHECK (zydec_WriteRaw ''if (!zero_flag && sign_flag == overflow_flag) goto '')
        (ERROR_CHECK (WriteOperand_at pOperands 0 virtualAddress)
        (ERROR_CHECK (zydec_WriteRaw ''; // if not less or equal'')
        (return_bool True)))
      else if m = ''JNO'' then
         ERROR_CHECK (zydec_WriteRaw ''if (!overflow_flag) goto '')
        (ERROR_CHECK (WriteOperand_at pOperands 0 virtualAddress)
        break_switch)
      else if m = ''JNP'' then
         ERROR_CHECK (zydec_WriteRaw ''if (!parity_flag) goto '')
        (ERROR_CHECK (WriteOperand_at pOperands 0 virtualAddress)
        break_switch)
      else if m = ''JNS'' then
         ERROR_CHECK (zydec_WriteRaw ''if (!sign_flag) goto '')
        (ERROR_CHECK (WriteOperand_at pOperands 0 virtualAddress)
        break_switch)
      else if m = ''JNZ'' then
         ERROR_CHECK (zydec_WriteRaw ''if (!zero_flag) goto '')
        (ERROR_CHECK (WriteOperand_at pOperands 0 virtualAddress)
        (ERROR_CHECK (zydec_WriteRaw ''; // if not zero / not equal'')
        (return_bool True)))
      else if m = ''JO'' then
         ERROR_CHECK (zydec_WriteRaw ''if (overflow_flag) goto '')
        (ERROR_CHECK (WriteOperand_at pOperands 0 virtualAddress)
        break_switch)
      else if m = ''JP'' then
         ERROR_CHECK (zydec_WriteRaw ''if (parity_flag) goto '')
        (ERROR_CHECK (WriteOperand_at pOperands 0 virtualAddress)
        break_switch)
      else if m = ''JS'' then
         ERROR_CHECK (zydec_WriteRaw ''if (sign_flag) goto '')
        (ERROR_CHECK (WriteOperand_at pOperands 0 virtualAddress)
        break_switch)
      else if m = ''JZ'' then
         ERROR_CHECK (zydec_WriteRaw ''if (zero_flag) goto '')
        (ERROR_CHECK (WriteOperand_at pOperands 0 virtualAddress)
        (ERROR_CHECK (zydec_WriteRaw ''; // if zero / equal'')
        (return_bool True)))
      else if m = ''SUB'' then
         ERROR_CHECK (WriteOperand_at pOperands 0 virtualAddress)
        (ERROR_CHECK (zydec_WriteRaw '' -= '')
        (ERROR_CHECK (WriteOperand_at pOperands 1 virtualAddress)
        break_switch))
      else if m = ''ADD'' then
         ERROR_CHECK (WriteOperand_at pOperands 0 virtualAddress)
        (ERROR_CHECK (zydec_WriteRaw '' += '')
        (ERROR_CHECK (WriteOperand_at pOperands 1 virtualAddress)
        break_switch))
      else if m = ''AND'' then
         ERROR_CHECK (WriteOperand_at pOperands 0 virtualAddress)
        (ERROR_CHECK (zydec_WriteRaw '' &= '')
        (ERROR_CHECK (WriteOperand_at pOperands 1 virtualAddress)
        break_switch))
      else if m = ''OR'' then
         ERROR_CHECK (WriteOperand_at pOperands 0 virtualAddress)
        (ERROR_CHECK (zydec_WriteRaw '' |= '')
        (ERROR_CHECK (WriteOperand_at pOperands 1 virtualAddress)
        break_switch))
      else if m \<in> set aligned_moves then
        move_family ''_mm_aligned_store'' ''_mm_aligned_load'' (aligned_suffix m)
          pInstruction pOperands virtualAddress
      else if m \<in> set unaligned_moves then
        move_family ''_mm_unaligned_store'' ''_mm_unaligned_load'' (unaligned_suffix m)
          pInstruction pOperands virtualAddress
      else if m \<in> set vector_family then
         ERROR_CHECK (WriteOperand_at pOperands 0 virtualAddress)
        (ERROR_CHECK (zydec_WriteRaw '' = '')
        (ERROR_CHECK (zydec_WriteRaw (intrinsic_name m))
        (ERROR_CHECK (operand_loop pOperands virtualAddress (operand_indices pInstruction))
        (ERROR_CHECK (zydec_WriteRaw '')'')
         break_switch))))
      else (\<lambda>st. Inr (False, st\<lparr>hasTranslation := False\<rparr>)))"

text \<open>
  The entry point. A null pointer is \<open>None\<close>; the result carries the return value, the
  caller's array and the cell behind \<^verbatim>\<open>pHasTranslation\<close> as the call leaves them.
\<close>

definition zydec_TranslateInstructionWithoutContext ::
    "ZydisDecodedInstruction option \<Rightarrow> ZydisDecodedOperand list option \<Rightarrow> nat \<Rightarrow> 64 word
     \<Rightarrow> char list option \<Rightarrow> nat \<Rightarrow> bool option
     \<Rightarrow> fault + (bool \<times> char list option \<times> bool option)" where
  "zydec_TranslateInstructionWithoutContext pInstruction pOperands operandCount virtualAddress
       buf bufferCapacity pHasTranslation =
     (if pInstruction = None \<or> pOperands = None \<or> operandCount = 0 \<or> buf = None
         \<or> bufferCapacity = 0 \<or> pHasTranslation = None
      then Inr (False, buf, pHasTranslation)
      else if the buf = [] then Inl BufferStoreOutOfBounds
      else
        (case translate_switch (the pInstruction) (the pOperands) virtualAddress
                \<lparr>buffer = (the buf)[0 := NUL], bufferPos = 0,
                 remainingSize = bufferCapacity - 1, hasTranslation = True\<rparr> of
           Inl f \<Rightarrow> Inl f
         | Inr (ok, st) \<Rightarrow> Inr (ok, Some (buffer st), Some (hasTranslation st))))"

section \<open>Notions used in the statements\<close>

text \<open>
  The state after a successful \<^verbatim>\<open>zydec_WriteRaw\<close> of \<open>text\<close>, and the invariant of the
  cursor: the text still allowed and its terminator fit into the array, and the byte under
  the cursor is the terminator.
\<close>

definition written :: "state \<Rightarrow> string \<Rightarrow> state" where
  "written st text =
     st\<lparr>buffer := take (bufferPos st) (buffer st) @ text @ [NUL]
                     @ drop (bufferPos st + length text + 1) (buffer st),
        remainingSize := remainingSize st - length text,
        bufferPos := bufferPos st + length text\<rparr>"

definition writer_inv :: "state \<Rightarrow> bool" where
  "writer_inv st \<longleftrightarrow>
     bufferPos st + remainingSize st < length (buffer st) \<and> buffer st ! bufferPos st = NUL"

text \<open>
  A script is the sequence of texts a writer hands to \<^verbatim>\<open>zydec_WriteRaw\<close>, one after the
  other, and what it does once all of them are written. A writer that is a script neither
  looks at the capacity nor at the array, except through \<^verbatim>\<open>zydec_WriteRaw\<close>.
\<close>

datatype ending = Fault fault | Return bool | NoTranslation

fun finish :: "ending \<Rightarrow> writer" where
  "finish (Fault f) st = Inl f"
| "finish (Return b) st = Inr (b, st)"
| "finish NoTranslation st = Inr (False, st\<lparr>hasTranslation := False\<rparr>)"

fun run_script :: "string list \<Rightarrow> ending \<Rightarrow> writer" where
  "run_script [] e = finish e"
| "run_script (t # ts) e = ERROR_CHECK (zydec_WriteRaw t) (run_script ts e)"

definition scripted :: "writer \<Rightarrow> bool" where
  "scripted w \<longleftrightarrow> (\<exists>ts e. (\<forall>t \<in> set ts. NUL \<notin> set t) \<and> w = run_script ts e)"

text \<open>The case labels of the outer \<^verbatim>\<open>switch\<close> of the translator.\<close>

definition recognized_mnemonics :: "ZydisMnemonic list" where
  "recognized_mnemonics =
    [''MOV'', ''LEA'', ''TEST'', ''CMP'', ''CALL'', ''JMP'', ''JB'', ''JBE'', ''JCXZ'',
     ''JECXZ'', ''JL'', ''JLE'', ''JNB'', ''JNBE'', ''JNL'', ''JNLE'', ''JNO'', ''JNP'',
     ''JNS'', ''JNZ'', ''JO'', ''JP'', ''JS'', ''JZ'', ''SUB'', ''ADD'', ''AND'', ''OR'']
    @ aligned_moves @ unaligned_moves @ vector_family"

text \<open>The translator's locals and the caller's memory when the \<^verbatim>\<open>switch\<close> is entered.\<close>

definition entry_state :: "char list \<Rightarrow> nat \<Rightarrow> state" where
  "entry_state buf bufferCapacity =
     \<lparr>buffer = buf[0 := NUL], bufferPos = 0, remainingSize = bufferCapacity - 1,
      hasTranslation = True\<rparr>"

text \<open>Operands of the three kinds the formatter renders; the members not in use are zero.\<close>

definition unused_mem :: ZydisDecodedOperandMem where
  "unused_mem = \<lparr>mem_type = ZYDIS_MEMOP_TYPE_INVALID, mem_segment = 0, mem_base = 0,
     mem_index = 0, mem_scale = 0, disp_has_displacement = False, disp_value = 0\<rparr>"

definition unused_imm :: ZydisDecodedOperandImm where
  "unused_imm = \<lparr>imm_is_signed = False, imm_is_relative = False, imm_value = 0\<rparr>"

definition register_operand :: "ZydisRegister \<Rightarrow> ZydisDecodedOperand" where
  "register_operand r =
     \<lparr>op_type = ZYDIS_OPERAND_TYPE_REGISTER, reg_value = r, mem = unused_mem, imm = unused_imm\<rparr>"

definition memory_operand :: "ZydisDecodedOperandMem \<Rightarrow> ZydisDecodedOperand" where
  "memory_operand m =
     \<lparr>op_type = ZYDIS_OPERAND_TYPE_MEMORY, reg_value = 0, mem = m, imm = unused_imm\<rparr>"

definition relative_immediate :: "64 word \<Rightarrow> ZydisDecodedOperand" where
  "relative_immediate v =
     \<lparr>op_type = ZYDIS_OPERAND_TYPE_IMMEDIATE, reg_value = 0, mem = unused_mem,
      imm = \<lparr>imm_is_signed = True, imm_is_relative = True, imm_value = v\<rparr>\<rparr>"

definition instruction :: "ZydisMnemonic \<Rightarrow> nat \<Rightarrow> ZydisDecodedInstruction" where
  "instruction m n = \<lparr>mnemonic = m, operand_count = of_nat n\<rparr>"

text \<open>
  The digits of a number, most significant first and without leading zeros; zero has no
  digits.
\<close>

function dec_digits :: "nat \<Rightarrow> string" where
  "dec_digits n = (if n = 0 then [] else dec_digits (n div 10) @ [''0123456789'' ! (n mod 10)])"
  by pat_completeness auto
termination
  by (relation "measure id") auto

declare dec_digits.simps [simp del]

function hex_digits :: "nat \<Rightarrow> string" where
  "hex_digits n = (if n = 0 then [] else hex_digits (n div 16) @ [''0123456789ABCDEF'' ! (n mod 16)])"
  by pat_completeness auto
termination
  by (relation "measure id") auto

declare hex_digits.simps [simp del]

text \<open>The line that a successful call leaves in the caller's buffer.\<close>

definition rendered_line :: "fault + (bool \<times> char list option \<times> bool option) \<Rightarrow> string option" where
  "rendered_line r =
     (case r of
        Inl f \<Rightarrow> None
      | Inr (ok, buf, h) \<Rightarrow>
          (case buf of None \<Rightarrow> None | Some bytes \<Rightarrow> if ok then Some (c_str bytes) else None))"

text \<open>
  The conditions that the translator writes between \<^verbatim>\<open>if (\<close> and \<^verbatim>\<open>)\<close>, as C reads them:
  \<^verbatim>\<open>!\<close> binds tighter than \<^verbatim>\<open>==\<close> and \<^verbatim>\<open>!=\<close>, these tighter than \<^verbatim>\<open>&&\<close>, and
  \<^verbatim>\<open>&&\<close> tighter than \<^verbatim>\<open>||\<close>.
\<close>

datatype flag = carry_flag | zero_flag | sign_flag | overflow_flag | parity_flag

datatype condition =
    Flag flag
  | Not condition
  | Differ condition condition
  | Same condition condition
  | Both condition condition
  | Either condition condition

fun flag_text :: "flag \<Rightarrow> string" where
  "flag_text carry_flag = ''carry_flag''"
| "flag_text zero_flag = ''zero_flag''"
| "flag_text sign_flag = ''sign_flag''"
| "flag_text overflow_flag = ''overflow_flag''"
| "flag_text parity_flag = ''parity_flag''"

fun condition_text :: "condition \<Rightarrow> string" where
  "condition_text (Flag f) = flag_text f"
| "condition_text (Not c) = ''!'' @ condition_text c"
| "condition_text (Differ a b) = condition_text a @ '' != '' @ condition_text b"
| "condition_text (Same a b) = condition_text a @ '' == '' @ condition_text b"
| "condition_text (Both a b) = condition_text a @ '' && '' @ condition_text b"
| "condition_text (Either a b) = condition_text a @ '' || '' @ condition_text b"

fun holds :: "(flag \<Rightarrow> bool) \<Rightarrow> condition \<Rightarrow> bool" where
  "holds v (Flag f) = v f"
| "holds v (Not c) = (\<not> holds v c)"
| "holds v (Differ a b) = (holds v a \<noteq> holds v b)"
| "holds v (Same a b) = (holds v a = holds v b)"
| "holds v (Both a b) = (holds v a \<and> holds v b)"
| "holds v (Either a b) = (holds v a \<or> holds v b)"

text \<open>
  The smallest decimal representation of a number, without leading zeros except for the
  literal \<^verbatim>\<open>0\<close>, and the signed decimal representation of an integer.
\<close>

definition decimal :: "nat \<Rightarrow> string" where
  "decimal n = (if n = 0 then ''0'' else dec_digits n)"

definition signed_decimal :: "int \<Rightarrow> string" where
  "signed_decimal i = (if i < 0 then ''-'' @ decimal (nat (- i)) else decimal (nat i))"

text \<open>
  A mnemonic writes a condition when, whatever the operands, the first text of its case is
  \<^verbatim>\<open>if (\<close>, the condition, \<^verbatim>\<open>) goto \<close>. One condition is the negation of another when
  they differ under every valuation of the flags.
\<close>

definition writes_condition :: "ZydisMnemonic \<Rightarrow> condition \<Rightarrow> bool" where
  "writes_condition m c \<longleftrightarrow>
     (\<forall>pInstruction pOperands virtualAddress. mnemonic pInstruction = m \<longrightarrow>
        (\<exists>rest. translate_switch pInstruction pOperands virtualAddress =
           ERROR_CHECK (zydec_WriteRaw (''if ('' @ condition_text c @ '') goto '')) rest))"

definition negation_of :: "condition \<Rightarrow> condition \<Rightarrow> bool" where
  "negation_of c' c \<longleftrightarrow> (\<forall>v. holds v c' = (\<not> holds v c))"

section \<open>The buffer writer keeps its invariant\<close>

lemma WriteRaw_inv:
  "writer_inv st \<Longrightarrow>
   zydec_WriteRaw t st = (if length t > remainingSize st then Inr (False, st) else Inr (True, written st t))"
  by (simp add: zydec_WriteRaw_def written_def writer_inv_def Let_def)

lemma written_inv:
  "writer_inv st \<Longrightarrow> length t \<le> remainingSize st \<Longrightarrow> writer_inv (written st t)"
  by (auto simp: written_def writer_inv_def nth_append)

lemma written_written:
  "writer_inv st \<Longrightarrow> length t1 \<le> remainingSize st \<Longrightarrow>
   written (written st t1) t2 = written st (t1 @ t2)"
  by (simp add: written_def writer_inv_def add.assoc add.commute add.left_commute)

lemma written_Nil: "writer_inv st \<Longrightarrow> written st [] = st"
proof -
  assume inv: "writer_inv st"
  then have "bufferPos st < length (buffer st)" by (simp add: writer_inv_def)
  then have "buffer st = take (bufferPos st) (buffer st) @ buffer st ! bufferPos st
      # drop (Suc (bufferPos st)) (buffer st)"
    by (rule id_take_nth_drop)
  with inv have "take (bufferPos st) (buffer st) @ [] @ [NUL]
      @ drop (bufferPos st + length ([] :: string) + 1) (buffer st) = buffer st"
    by (simp add: writer_inv_def)
  then show ?thesis by (simp add: written_def)
qed

lemma c_str_written:
  "NUL \<notin> set t \<Longrightarrow> bufferPos st = 0 \<Longrightarrow> c_str (buffer (written st t)) = t"
  by (auto simp: written_def c_str_def takeWhile_tail)

lemma run_script_fits:
  "writer_inv st \<Longrightarrow> length (concat ts) \<le> remainingSize st \<Longrightarrow>
   run_script ts e st = finish e (written st (concat ts))"
proof (induction ts arbitrary: st)
  case Nil
  then show ?case by (simp add: written_Nil)
next
  case (Cons t ts)
  from Cons.prems have fit: "length t \<le> remainingSize st" by simp
  have inv': "writer_inv (written st t)" using Cons.prems(1) fit by (rule written_inv)
  have rem': "length (concat ts) \<le> remainingSize (written st t)"
    using Cons.prems(2) by (simp add: written_def)
  show ?case
    using Cons.IH [OF inv' rem'] Cons.prems(1) fit
    by (simp add: ERROR_CHECK_def WriteRaw_inv written_written)
qed

lemma run_script_short:
  "writer_inv st \<Longrightarrow> remainingSize st < length (concat ts) \<Longrightarrow>
   \<exists>st'. run_script ts e st = Inr (False, st') \<and> hasTranslation st' = hasTranslation st"
proof (induction ts arbitrary: st)
  case Nil
  then show ?case by simp
next
  case (Cons t ts)
  show ?case
  proof (cases "length t \<le> remainingSize st")
    case True
    have inv': "writer_inv (written st t)" using Cons.prems(1) True by (rule written_inv)
    have rem': "remainingSize (written st t) < length (concat ts)"
      using Cons.prems(2) True by (simp add: written_def)
    from Cons.IH [OF inv' rem'] show ?thesis
      using Cons.prems(1) True by (simp add: ERROR_CHECK_def WriteRaw_inv written_def)
  next
    case False
    then show ?thesis
      using Cons.prems(1) by (simp add: ERROR_CHECK_def WriteRaw_inv)
  qed
qed

lemma ERROR_CHECK_assoc:
  "ERROR_CHECK (ERROR_CHECK a b) c = ERROR_CHECK a (ERROR_CHECK b c)"
  by (auto simp: ERROR_CHECK_def fun_eq_iff split: sum.splits)

lemma ERROR_CHECK_finish:
  "ERROR_CHECK (finish e) w = (if e = Return True then w else finish e)"
  by (cases e) (auto simp: ERROR_CHECK_def fun_eq_iff)

lemma ERROR_CHECK_run_script:
  "ERROR_CHECK (run_script ts1 e1) (run_script ts2 e2) =
     (if e1 = Return True then run_script (ts1 @ ts2) e2 else run_script ts1 e1)"
  by (induction ts1) (simp_all add: ERROR_CHECK_finish ERROR_CHECK_assoc)

lemma scripted_finish: "scripted (finish e)"
  unfolding scripted_def by (rule exI [of _ "[]"], rule exI [of _ e]) simp

lemma scripted_return_bool: "scripted (return_bool b)"
proof -
  have "return_bool b = finish (Return b)" by (simp add: fun_eq_iff return_bool_def)
  then show ?thesis by (simp add: scripted_finish)
qed

lemma scripted_fault: "scripted (\<lambda>st. Inl f)"
proof -
  have "(\<lambda>st. Inl f) = finish (Fault f)" by (simp add: fun_eq_iff)
  then show ?thesis by (simp add: scripted_finish)
qed

lemma WriteRaw_as_script: "zydec_WriteRaw t = run_script [t] (Return True)"
  by (auto simp: fun_eq_iff ERROR_CHECK_def split: sum.splits)

lemma scripted_WriteRaw:
  assumes "NUL \<notin> set t"
  shows "scripted (zydec_WriteRaw t)"
proof -
  have "\<forall>t' \<in> set [t]. NUL \<notin> set t'" using assms by simp
  with WriteRaw_as_script [of t] show ?thesis unfolding scripted_def by blast
qed

lemma scripted_ERROR_CHECK:
  assumes "scripted a" and "scripted b"
  shows "scripted (ERROR_CHECK a b)"
proof -
  from assms(1) obtain ts1 e1 where a: "\<forall>t \<in> set ts1. NUL \<notin> set t" "a = run_script ts1 e1"
    by (auto simp: scripted_def)
  from assms(2) obtain ts2 e2 where b: "\<forall>t \<in> set ts2. NUL \<notin> set t" "b = run_script ts2 e2"
    by (auto simp: scripted_def)
  show ?thesis
  proof (cases "e1 = Return True")
    case True
    then have "ERROR_CHECK a b = run_script (ts1 @ ts2) e2"
      by (simp add: a(2) b(2) ERROR_CHECK_run_script)
    moreover have "\<forall>t \<in> set (ts1 @ ts2). NUL \<notin> set t" using a(1) b(1) by auto
    ultimately show ?thesis unfolding scripted_def by blast
  next
    case False
    then have "ERROR_CHECK a b = run_script ts1 e1"
      by (simp add: a(2) b(2) ERROR_CHECK_run_script)
    with a(1) show ?thesis unfolding scripted_def by blast
  qed
qed

lemma scripted_if: "scripted a \<Longrightarrow> scripted b \<Longrightarrow> scripted (if c then a else b)"
  by simp

lemma cstr_of_no_NUL: "cstr_of xs = Some t \<Longrightarrow> NUL \<notin> set t"
  by (induction xs arbitrary: t) (auto split: option.splits if_splits)

lemma scripted_WriteRaw_scratch: "scripted (WriteRaw_scratch buf p)"
proof (cases "read_cstr buf p")
  case None
  then have "WriteRaw_scratch buf p = (\<lambda>st. Inl ScratchReadInvalid)"
    by (simp add: fun_eq_iff WriteRaw_scratch_def)
  then show ?thesis by (simp add: scripted_fault)
next
  case (Some t)
  then have "NUL \<notin> set t"
    by (auto simp: read_cstr_def dest: cstr_of_no_NUL split: if_splits)
  moreover from Some have "WriteRaw_scratch buf p = zydec_WriteRaw t"
    by (simp add: fun_eq_iff WriteRaw_scratch_def)
  ultimately show ?thesis by (simp add: scripted_WriteRaw)
qed

lemma scripted_WriteUInt: "scripted (zydec_WriteUInt v)"
proof -
  have "zydec_WriteUInt v =
     (case store (replicate 20 None) (20 - 1) NUL of
        Inl f \<Rightarrow> (\<lambda>st. Inl f)
      | Inr buf0 \<Rightarrow>
     (case WriteUInt_loop v (20 - 2) buf0 of
        Inl f \<Rightarrow> (\<lambda>st. Inl f)
      | Inr (tmp, bufFromEnd, buf1) \<Rightarrow>
          if tmp \<noteq> 0 then
            (case store buf1 bufFromEnd (char_of (of_char CHR ''0'' + unat (tmp mod 10))) of
               Inl f \<Rightarrow> (\<lambda>st. Inl f)
             | Inr buf2 \<Rightarrow> WriteRaw_scratch buf2 bufFromEnd)
          else WriteRaw_scratch buf1 (bufFromEnd + 1)))"
    by (simp add: fun_eq_iff zydec_WriteUInt_def split: sum.splits prod.splits)
  then show ?thesis
    by (simp add: scripted_fault scripted_WriteRaw_scratch split: sum.splits prod.splits)
qed

lemma scripted_WriteHex: "scripted (zydec_WriteHex v)"
proof -
  have "zydec_WriteHex v =
     (case store (replicate (2 + 2 * 8 + 1) None) (2 + 2 * 8 + 1 - 1) NUL of
        Inl f \<Rightarrow> (\<lambda>st. Inl f)
      | Inr buf0 \<Rightarrow>
     (case WriteHex_loop v (2 + 2 * 8 + 1 - 2) buf0 of
        Inl f \<Rightarrow> (\<lambda>st. Inl f)
      | Inr (tmp, bufFromEnd, buf1) \<Rightarrow>
     (case (if tmp \<noteq> 0 then
              (case store buf1 bufFromEnd (lut ! unat (tmp AND 0xF)) of
                 Inl f \<Rightarrow> Inl f
               | Inr buf2 \<Rightarrow> Inr (bufFromEnd - 1, buf2))
            else Inr (bufFromEnd, buf1)) of
        Inl f \<Rightarrow> (\<lambda>st. Inl f)
      | Inr (bufFromEnd2, buf3) \<Rightarrow>
     (case store buf3 bufFromEnd2 CHR ''x'' of
        Inl f \<Rightarrow> (\<lambda>st. Inl f)
      | Inr buf4 \<Rightarrow>
     (case store buf4 (bufFromEnd2 - 1) CHR ''0'' of
        Inl f \<Rightarrow> (\<lambda>st. Inl f)
      | Inr buf5 \<Rightarrow> WriteRaw_scratch buf5 (bufFromEnd2 - 1))))))"
    by (simp add: fun_eq_iff zydec_WriteHex_def split: sum.splits prod.splits)
  then show ?thesis
    by (simp add: scripted_fault scripted_WriteRaw_scratch split: sum.splits prod.splits)
qed

lemma scripted_WriteInt: "scripted (zydec_WriteInt v)"
  by (simp add: zydec_WriteInt_def scripted_ERROR_CHECK scripted_WriteRaw scripted_WriteUInt
      scripted_fault NUL_def)

lemma RegisterNameLut_no_NUL: "\<forall>t \<in> set RegisterNameLut. NUL \<notin> set t"
  by code_simp

lemma scripted_WriteRegister: "scripted (zydec_WriteRegister reg)"
  by (simp add: zydec_WriteRegister_def scripted_ERROR_CHECK scripted_WriteRaw
      scripted_return_bool RegisterNameLut_no_NUL)

lemmas scripted_intros =
  scripted_if scripted_ERROR_CHECK scripted_return_bool scripted_WriteRegister
  scripted_WriteInt scripted_WriteUInt scripted_WriteHex scripted_fault scripted_finish

lemma scripted_WriteOperand: "scripted (zydec_WriteOperand pOperand virtualAddress)"
  unfolding zydec_WriteOperand_def
  by (auto split: ZydisOperandType.splits ZydisMemoryOperandType.splits
      intro!: scripted_intros scripted_WriteRaw simp: NUL_def)

lemma scripted_WriteOperand_at: "scripted (WriteOperand_at pOperands i virtualAddress)"
proof (cases "operand_at pOperands i")
  case (Inl f)
  then have "WriteOperand_at pOperands i virtualAddress = (\<lambda>st. Inl f)"
    by (simp add: fun_eq_iff WriteOperand_at_def)
  then show ?thesis by (simp add: scripted_fault)
next
  case (Inr pOperand)
  then have "WriteOperand_at pOperands i virtualAddress = zydec_WriteOperand pOperand virtualAddress"
    by (simp add: fun_eq_iff WriteOperand_at_def)
  then show ?thesis by (simp add: scripted_WriteOperand)
qed

lemma scripted_break_switch: "scripted break_switch"
  by (simp add: break_switch_def scripted_ERROR_CHECK scripted_WriteRaw scripted_return_bool NUL_def)

lemma scripted_operand_loop: "scripted (operand_loop pOperands virtualAddress is)"
  by (induction "is")
     (simp_all add: scripted_ERROR_CHECK scripted_WriteRaw scripted_return_bool
        scripted_WriteOperand_at NUL_def)

lemma scripted_move_family:
  assumes "NUL \<notin> set store_name" "NUL \<notin> set load_name" "NUL \<notin> set suffix"
  shows "scripted (move_family store_name load_name suffix pInstruction pOperands virtualAddress)"
proof -
  define tail where "tail = (\<lambda>isReg2RegMove.
            ERROR_CHECK (if \<not> isReg2RegMove then zydec_WriteRaw suffix else return_bool True)
           (ERROR_CHECK (WriteOperand_at pOperands 0 virtualAddress)
           (ERROR_CHECK (if isReg2RegMove then zydec_WriteRaw '' = '' else zydec_WriteRaw '', '')
           (ERROR_CHECK (operand_loop pOperands virtualAddress (operand_indices pInstruction))
           (ERROR_CHECK (if \<not> isReg2RegMove then zydec_WriteRaw '')'' else return_bool True)
            break_switch)))))"
  have tail: "scripted (tail r)" for r
    unfolding tail_def
    by (intro scripted_ERROR_CHECK scripted_if scripted_WriteRaw scripted_return_bool
        scripted_WriteOperand_at scripted_operand_loop scripted_break_switch assms)
       (simp_all add: NUL_def)
  have "move_family store_name load_name suffix pInstruction pOperands virtualAddress =
     (case operand_at pOperands 0 of
        Inl f \<Rightarrow> (\<lambda>st. Inl f)
      | Inr op0 \<Rightarrow>
          if op_type op0 = ZYDIS_OPERAND_TYPE_MEMORY \<or> op_type op0 = ZYDIS_OPERAND_TYPE_POINTER
          then ERROR_CHECK (zydec_WriteRaw store_name) (tail False)
          else
            (case operand_at pOperands 1 of
               Inl f \<Rightarrow> (\<lambda>st. Inl f)
             | Inr op1 \<Rightarrow>
                 if op_type op1 = ZYDIS_OPERAND_TYPE_MEMORY
                    \<or> op_type op1 = ZYDIS_OPERAND_TYPE_POINTER
                 then ERROR_CHECK (zydec_WriteRaw load_name) (tail False)
                 else tail True))"
    by (simp add: fun_eq_iff move_family_def tail_def split: sum.splits)
  then show ?thesis
    by (simp add: scripted_fault scripted_ERROR_CHECK scripted_WriteRaw tail assms
        split: sum.splits)
qed

lemma intrinsic_names_no_NUL: "\<forall>(m, name) \<in> set intrinsic_names. NUL \<notin> set name"
  by code_simp

lemma intrinsic_name_no_NUL: "NUL \<notin> set (intrinsic_name m)"
proof (cases "map_of intrinsic_names m")
  case None
  then show ?thesis by (simp add: intrinsic_name_def NUL_def)
next
  case (Some name)
  then have "(m, name) \<in> set intrinsic_names" by (rule map_of_SomeD)
  with intrinsic_names_no_NUL have "NUL \<notin> set name" by blast
  with Some show ?thesis by (simp add: intrinsic_name_def)
qed

lemma aligned_suffix_no_NUL: "NUL \<notin> set (aligned_suffix m)"
  by (simp add: aligned_suffix_def NUL_def)

lemma unaligned_suffix_no_NUL: "NUL \<notin> set (unaligned_suffix m)"
  by (simp add: unaligned_suffix_def NUL_def)

lemma scripted_NoTranslation: "scripted (\<lambda>st. Inr (False, st\<lparr>hasTranslation := False\<rparr>))"
proof -
  have "(\<lambda>st. Inr (False, st\<lparr>hasTranslation := False\<rparr>)) = finish NoTranslation"
    by (simp add: fun_eq_iff)
  then show ?thesis by (simp add: scripted_finish)
qed

lemma scripted_translate_switch: "scripted (translate_switch pInstruction pOperands virtualAddress)"
  unfolding translate_switch_def Let_def
  by (intro scripted_if scripted_ERROR_CHECK scripted_WriteRaw scripted_return_bool
      scripted_WriteOperand_at scripted_operand_loop scripted_break_switch
      scripted_move_family scripted_NoTranslation intrinsic_name_no_NUL
      aligned_suffix_no_NUL unaligned_suffix_no_NUL)
     (simp_all add: NUL_def)

lemma translate_entry:
  assumes "operandCount \<noteq> 0" and "bufferCapacity \<noteq> 0" and "buf \<noteq> []"
  shows "zydec_TranslateInstructionWithoutContext (Some pInstruction) (Some pOperands)
           operandCount virtualAddress (Some buf) bufferCapacity (Some h) =
         (case translate_switch pInstruction pOperands virtualAddress
                 (entry_state buf bufferCapacity) of
            Inl f \<Rightarrow> Inl f
          | Inr (ok, st) \<Rightarrow> Inr (ok, Some (buffer st), Some (hasTranslation st)))"
  using assms by (simp add: zydec_TranslateInstructionWithoutContext_def entry_state_def)

lemma entry_state_inv:
  "bufferCapacity \<noteq> 0 \<Longrightarrow> bufferCapacity \<le> length buf \<Longrightarrow>
   writer_inv (entry_state buf bufferCapacity)"
  by (cases buf) (auto simp: writer_inv_def entry_state_def)

lemma translate_switch_default:
  "mnemonic pInstruction \<notin> set recognized_mnemonics \<Longrightarrow>
   translate_switch pInstruction pOperands virtualAddress st =
     Inr (False, st\<lparr>hasTranslation := False\<rparr>)"
  by (simp add: translate_switch_def recognized_mnemonics_def Let_def)

lemma buffer_written_entry:
  "buf \<noteq> [] \<Longrightarrow> NUL \<notin> set t \<Longrightarrow> length t < length buf \<Longrightarrow>
   c_str (buffer (written (entry_state buf c) t)) = t
   \<and> buffer (written (entry_state buf c) t) ! length t = NUL
   \<and> length (buffer (written (entry_state buf c) t)) = length buf"
  by (auto simp: written_def entry_state_def c_str_def takeWhile_tail nth_append)

lemma finish_True:
  "finish e st = Inr (True, st') \<Longrightarrow> e = Return True \<and> st' = st"
  by (cases e) auto

section \<open>The numeric formatters\<close>

lemma below_10_cases:
  "(d::nat) < 10 \<Longrightarrow> d = 0 \<or> d = 1 \<or> d = 2 \<or> d = 3 \<or> d = 4 \<or> d = 5 \<or> d = 6 \<or> d = 7 \<or> d = 8 \<or> d = 9"
  by arith

lemma below_16_cases:
  "(d::nat) < 16 \<Longrightarrow> d = 0 \<or> d = 1 \<or> d = 2 \<or> d = 3 \<or> d = 4 \<or> d = 5 \<or> d = 6 \<or> d = 7 \<or> d = 8 \<or> d = 9
     \<or> d = 10 \<or> d = 11 \<or> d = 12 \<or> d = 13 \<or> d = 14 \<or> d = 15"
  by arith

lemma digit_char:
  "d < 10 \<Longrightarrow> char_of (48 + d :: nat) = ''0123456789'' ! d"
  by (drule below_10_cases) (auto simp: char_of_def bit_iff_odd)

lemma digit_not_NUL: "d < 10 \<Longrightarrow> ''0123456789'' ! d \<noteq> NUL"
  by (drule below_10_cases) (auto simp: NUL_def)

lemma lut_not_NUL: "d < 16 \<Longrightarrow> lut ! d \<noteq> NUL"
  by (drule below_16_cases) (auto simp: NUL_def lut_def)

lemma drop_update_here: "i < length buf \<Longrightarrow> drop i (buf[i := x]) = x # drop (Suc i) buf"
  by (simp add: Cons_nth_drop_Suc [symmetric])

lemma cstr_of_store:
  "i < length buf \<Longrightarrow> c \<noteq> NUL \<Longrightarrow>
   cstr_of (drop i (buf[i := Some c])) = map_option ((#) c) (cstr_of (drop (Suc i) buf))"
  by (simp add: drop_update_here)

lemma cstr_of_store_NUL:
  "i < length buf \<Longrightarrow> cstr_of (drop i (buf[i := Some NUL])) = Some []"
  by (simp add: drop_update_here)

lemma dec_digits_0: "dec_digits 0 = []"
  by (simp add: dec_digits.simps)

lemma dec_digits_step: "n \<noteq> 0 \<Longrightarrow> dec_digits n = dec_digits (n div 10) @ [''0123456789'' ! (n mod 10)]"
  by (subst dec_digits.simps) simp

lemma dec_digits_small: "n \<noteq> 0 \<Longrightarrow> n < 10 \<Longrightarrow> dec_digits n = [''0123456789'' ! n]"
  by (simp add: dec_digits_step dec_digits_0)

lemma WriteUInt_loop_ok:
  assumes "0 \<le> p" and "nat p < length buf"
    and "cstr_of (drop (Suc (nat p)) buf) = Some s"
    and "unat tmp < 10 ^ Suc (nat p)"
  shows "\<exists>tmp' p' buf' s'. WriteUInt_loop tmp p buf = Inr (tmp', p', buf')
           \<and> unat tmp' < 10 \<and> 0 \<le> p' \<and> nat p' < length buf'
           \<and> cstr_of (drop (Suc (nat p')) buf') = Some s'
           \<and> dec_digits (unat tmp') @ s' = dec_digits (unat tmp) @ s"
  using assms
proof (induction tmp p buf arbitrary: s rule: WriteUInt_loop.induct)
  case (1 tmp p buf)
  show ?case
  proof (cases "tmp \<ge> 10")
    case False
    then have "unat tmp < 10" by (simp add: word_le_nat_alt)
    with False "1.prems" show ?thesis
      by (subst WriteUInt_loop.simps) simp
  next
    case True
    then have ge: "10 \<le> unat tmp" by (simp add: word_le_nat_alt)
    let ?d = "char_of (of_char CHR ''0'' + unat (tmp mod 10))"
    have d: "?d = ''0123456789'' ! (unat tmp mod 10)"
      by (simp add: unat_mod digit_char)
    have dn: "?d \<noteq> NUL" unfolding d by (rule digit_not_NUL) simp
    have p1: "1 \<le> p"
    proof (rule ccontr)
      assume "\<not> 1 \<le> p"
      with "1.prems"(1) have "nat p = 0" by simp
      with "1.prems"(4) ge show False by simp
    qed
    let ?buf = "buf[nat p := Some ?d]"
    have st: "store buf p ?d = Inr ?buf"
      using "1.prems"(1,2) by (simp add: store_def)
    have a: "0 \<le> p - 1" using p1 by simp
    have b: "nat (p - 1) < length ?buf" using "1.prems"(2) p1 by simp
    have suc: "Suc (nat (p - 1)) = nat p" using p1 by simp
    have c: "cstr_of (drop (Suc (nat (p - 1))) ?buf) = Some (?d # s)"
      unfolding suc using "1.prems"(2,3) dn by (simp add: cstr_of_store)
    have "unat tmp < 10 * 10 ^ nat p" using "1.prems"(4) by simp
    then have "unat tmp div 10 < 10 ^ nat p" by (simp add: less_mult_imp_div_less mult.commute)
    then have e: "unat (tmp div 10) < 10 ^ Suc (nat (p - 1))"
      unfolding suc by (simp add: unat_div)
    from "1.IH" [OF True st a b c e]
    obtain tmp' p' buf' s' where r: "WriteUInt_loop (tmp div 10) (p - 1) ?buf = Inr (tmp', p', buf')"
      "unat tmp' < 10" "0 \<le> p'" "nat p' < length buf'"
      "cstr_of (drop (Suc (nat p')) buf') = Some s'"
      "dec_digits (unat tmp') @ s' = dec_digits (unat (tmp div 10)) @ ?d # s"
      by blast
    have "dec_digits (unat tmp) = dec_digits (unat tmp div 10) @ [?d]"
      using ge unfolding d by (simp add: dec_digits_step)
    with r(6) have "dec_digits (unat tmp') @ s' = dec_digits (unat tmp) @ s"
      by (simp add: unat_div)
    moreover have "WriteUInt_loop tmp p buf = Inr (tmp', p', buf')"
      using True st r(1) by (subst WriteUInt_loop.simps) simp
    ultimately show ?thesis using r(2-5) by blast
  qed
qed

lemma WriteUInt_below:
  assumes "unat v < 10 ^ 19"
  shows "zydec_WriteUInt v = zydec_WriteRaw (dec_digits (unat v))"
proof (rule ext)
  fix st
  let ?buf0 = "(replicate 20 None)[19 := Some NUL]"
  have s0: "store (replicate 20 None) (20 - 1) NUL = Inr ?buf0"
    by (simp add: store_def)
  have c0: "cstr_of (drop (Suc (nat 18)) ?buf0) = Some []"
    using cstr_of_store_NUL [of 19 "replicate 20 None"] by simp
  have "unat v < 10 ^ Suc (nat 18)" using assms by simp
  from WriteUInt_loop_ok [of 18 ?buf0 "[]" v, OF _ _ c0 this]
  obtain tmp' p' buf' s' where r: "WriteUInt_loop v 18 ?buf0 = Inr (tmp', p', buf')"
    "unat tmp' < 10" "0 \<le> p'" "nat p' < length buf'"
    "cstr_of (drop (Suc (nat p')) buf') = Some s'"
    "dec_digits (unat tmp') @ s' = dec_digits (unat v)"
    by auto
  show "zydec_WriteUInt v st = zydec_WriteRaw (dec_digits (unat v)) st"
  proof (cases "tmp' = 0")
    case True
    have "read_cstr buf' (p' + 1) = Some s'"
      using r(3,5) by (simp add: read_cstr_def nat_add_distrib)
    moreover have "s' = dec_digits (unat v)" using r(6) True by (simp add: dec_digits_0)
    ultimately show ?thesis
      using s0 r(1) True by (simp add: zydec_WriteUInt_def WriteRaw_scratch_def)
  next
    case False
    then have nz: "unat tmp' \<noteq> 0" by (simp add: unat_eq_zero)
    let ?d = "char_of (of_char CHR ''0'' + unat (tmp' mod 10))"
    have d: "?d = ''0123456789'' ! unat tmp'"
      using r(2) by (simp add: unat_mod digit_char)
    have dn: "?d \<noteq> NUL" unfolding d using r(2) by (rule digit_not_NUL)
    have st2: "store buf' p' ?d = Inr (buf'[nat p' := Some ?d])"
      using r(3,4) by (simp add: store_def)
    have "read_cstr (buf'[nat p' := Some ?d]) p' = Some (?d # s')"
      using r(3,4,5) dn by (simp add: read_cstr_def cstr_of_store)
    moreover have "?d # s' = dec_digits (unat v)"
      using r(6) nz r(2) unfolding d by (simp add: dec_digits_small)
    ultimately show ?thesis
      using s0 r(1) False st2 by (simp add: zydec_WriteUInt_def WriteRaw_scratch_def)
  qed
qed

lemma WriteUInt_loop_overrun:
  assumes "- 1 \<le> p" and "p < int (length buf)" and "10 ^ nat (p + 1) \<le> unat tmp"
  shows "(\<exists>tmp' buf'. WriteUInt_loop tmp p buf = Inr (tmp', - 1, buf') \<and> tmp' \<noteq> 0)
         \<or> WriteUInt_loop tmp p buf = Inl (ScratchStoreOutOfBounds (- 1))"
  using assms
proof (induction tmp p buf rule: WriteUInt_loop.induct)
  case (1 tmp p buf)
  show ?case
  proof (cases "tmp \<ge> 10")
    case False
    then have lt: "unat tmp < 10" by (simp add: word_le_nat_alt)
    have "nat (p + 1) = 0"
    proof (rule ccontr)
      assume "nat (p + 1) \<noteq> 0"
      then obtain k where "nat (p + 1) = Suc k" by (cases "nat (p + 1)") auto
      with "1.prems"(3) have "10 * 10 ^ k \<le> unat tmp" by simp
      moreover have "(1::nat) \<le> 10 ^ k" by simp
      ultimately show False using lt by linarith
    qed
    with "1.prems"(1) have p: "p = - 1" by simp
    from "1.prems"(3) p have "tmp \<noteq> 0" by (auto simp: unat_eq_zero)
    with False p show ?thesis by (subst WriteUInt_loop.simps) simp
  next
    case True
    let ?d = "char_of (of_char CHR ''0'' + unat (tmp mod 10))"
    show ?thesis
    proof (cases "p = - 1")
      case neg: True
      then have "store buf p ?d = Inl (ScratchStoreOutOfBounds (- 1))"
        by (simp add: store_def)
      with True show ?thesis by (subst WriteUInt_loop.simps) simp
    next
      case False
      with "1.prems"(1) have p0: "0 \<le> p" by simp
      let ?buf = "buf[nat p := Some ?d]"
      have st: "store buf p ?d = Inr ?buf"
        using p0 "1.prems"(2) by (simp add: store_def)
      have a: "- 1 \<le> p - 1" using p0 by simp
      have b: "p - 1 < int (length ?buf)" using "1.prems"(2) by simp
      have "nat (p + 1) = Suc (nat p)" using p0 by simp
      with "1.prems"(3) have "10 ^ nat p * 10 \<le> unat tmp" by simp
      then have "10 ^ nat p \<le> unat tmp div 10"
        by (simp add: less_eq_div_iff_mult_less_eq)
      then have c: "10 ^ nat (p - 1 + 1) \<le> unat (tmp div 10)"
        by (simp add: unat_div)
      have eq: "WriteUInt_loop tmp p buf = WriteUInt_loop (tmp div 10) (p - 1) ?buf"
        using True st by (subst WriteUInt_loop.simps) simp
      from "1.IH" [OF True st a b c] show ?thesis unfolding eq .
    qed
  qed
qed

lemma WriteUInt_overrun:
  assumes "10 ^ 19 \<le> unat v"
  shows "zydec_WriteUInt v st = Inl (ScratchStoreOutOfBounds (- 1))"
proof -
  let ?buf0 = "(replicate 20 None)[19 := Some NUL]"
  have s0: "store (replicate 20 None) (20 - 1) NUL = Inr ?buf0"
    by (simp add: store_def)
  have "10 ^ nat (18 + 1) \<le> unat v" using assms by simp
  from WriteUInt_loop_overrun [of 18 ?buf0 v, OF _ _ this]
  consider tmp' buf' where "WriteUInt_loop v 18 ?buf0 = Inr (tmp', - 1, buf')" "tmp' \<noteq> 0"
    | "WriteUInt_loop v 18 ?buf0 = Inl (ScratchStoreOutOfBounds (- 1))"
    by auto
  then show ?thesis
  proof cases
    case 1
    with s0 show ?thesis by (simp add: zydec_WriteUInt_def store_def)
  next
    case 2
    with s0 show ?thesis by (simp add: zydec_WriteUInt_def)
  qed
qed

lemma unat_and_15: "unat ((w :: 64 word) AND 0xF) = unat w mod 16"
proof -
  have "w AND 0xF = take_bit 4 w" by (simp add: take_bit_eq_mask mask_numeral)
  then show ?thesis by (simp add: take_bit_eq_mod unat_mod)
qed

lemma unat_drop_bit_4: "unat (drop_bit 4 (w :: 64 word)) = unat w div 16"
  by (simp add: drop_bit_eq_div unat_div)

lemma hex_digits_0: "hex_digits 0 = []"
  by (simp add: hex_digits.simps)

lemma hex_digits_step:
  "n \<noteq> 0 \<Longrightarrow> hex_digits n = hex_digits (n div 16) @ [lut ! (n mod 16)]"
  by (subst hex_digits.simps) (simp add: lut_def)

lemma hex_digits_small: "n \<noteq> 0 \<Longrightarrow> n < 16 \<Longrightarrow> hex_digits n = [lut ! n]"
  by (simp add: hex_digits_step hex_digits_0)

lemma WriteHex_loop_ok:
  assumes "1 \<le> p" and "nat p < length buf"
    and "cstr_of (drop (Suc (nat p)) buf) = Some s"
    and "unat tmp < 16 ^ (nat p - 1)"
  shows "\<exists>tmp' p' buf' s'. WriteHex_loop tmp p buf = Inr (tmp', p', buf')
           \<and> unat tmp' < 15 \<and> 1 \<le> p' \<and> nat p' < length buf'
           \<and> unat tmp' < 16 ^ (nat p' - 1)
           \<and> cstr_of (drop (Suc (nat p')) buf') = Some s'
           \<and> hex_digits (unat tmp') @ s' = hex_digits (unat tmp) @ s"
  using assms
proof (induction tmp p buf arbitrary: s rule: WriteHex_loop.induct)
  case (1 tmp p buf)
  show ?case
  proof (cases "tmp \<ge> 0xF")
    case False
    then have "unat tmp < 15" by (simp add: word_le_nat_alt)
    with False "1.prems" show ?thesis
      by (subst WriteHex_loop.simps) simp
  next
    case True
    then have ge: "15 \<le> unat tmp" by (simp add: word_le_nat_alt)
    let ?d = "lut ! unat (tmp AND 0xF)"
    have d: "?d = lut ! (unat tmp mod 16)" by (simp add: unat_and_15)
    have dn: "?d \<noteq> NUL" unfolding d by (rule lut_not_NUL) simp
    have p2: "2 \<le> p"
    proof (rule ccontr)
      assume "\<not> 2 \<le> p"
      with "1.prems"(1) have "nat p - 1 = 0" by simp
      with "1.prems"(4) ge show False by simp
    qed
    let ?buf = "buf[nat p := Some ?d]"
    have st: "store buf p ?d = Inr ?buf"
      using "1.prems"(1,2) by (simp add: store_def)
    have a: "1 \<le> p - 1" using p2 by simp
    have b: "nat (p - 1) < length ?buf" using "1.prems"(2) p2 by simp
    have suc: "Suc (nat (p - 1)) = nat p" using p2 by simp
    have c: "cstr_of (drop (Suc (nat (p - 1))) ?buf) = Some (?d # s)"
      unfolding suc using "1.prems"(2,3) dn by (simp add: cstr_of_store)
    define k where "k = nat p - 2"
    have k1: "nat p - 1 = Suc k" and k2: "nat (p - 1) - 1 = k"
      using p2 unfolding k_def by linarith+
    from "1.prems"(4) have "unat tmp < 16 * 16 ^ k" unfolding k1 by simp
    then have "unat tmp div 16 < 16 ^ k"
      by (simp add: less_mult_imp_div_less mult.commute)
    then have e: "unat (drop_bit 4 tmp) < 16 ^ (nat (p - 1) - 1)"
      unfolding k2 by (simp add: unat_drop_bit_4)
    from "1.IH" [OF True st a b c e]
    obtain tmp' p' buf' s' where r: "WriteHex_loop (drop_bit 4 tmp) (p - 1) ?buf = Inr (tmp', p', buf')"
      "unat tmp' < 15" "1 \<le> p'" "nat p' < length buf'" "unat tmp' < 16 ^ (nat p' - 1)"
      "cstr_of (drop (Suc (nat p')) buf') = Some s'"
      "hex_digits (unat tmp') @ s' = hex_digits (unat (drop_bit 4 tmp)) @ ?d # s"
      by blast
    have "hex_digits (unat tmp) = hex_digits (unat tmp div 16) @ [?d]"
      using ge unfolding d by (simp add: hex_digits_step)
    with r(7) have "hex_digits (unat tmp') @ s' = hex_digits (unat tmp) @ s"
      by (simp add: unat_drop_bit_4)
    moreover have "WriteHex_loop tmp p buf = Inr (tmp', p', buf')"
      using True st r(1) by (subst WriteHex_loop.simps) simp
    ultimately show ?thesis using r(2-6) by blast
  qed
qed

lemma x_not_NUL: "CHR ''x'' \<noteq> NUL" and zero_not_NUL: "CHR ''0'' \<noteq> NUL"
  by (simp_all add: NUL_def)

lemma WriteHex_eq: "zydec_WriteHex v = zydec_WriteRaw (''0x'' @ hex_digits (unat v))"
proof (rule ext)
  fix st
  let ?buf0 = "(replicate 19 None)[18 := Some NUL]"
  have s0: "store (replicate (2 + 2 * 8 + 1) None) (2 + 2 * 8 + 1 - 1) NUL = Inr ?buf0"
    by (simp add: store_def)
  have c0: "cstr_of (drop (Suc (nat 17)) ?buf0) = Some []"
    using cstr_of_store_NUL [of 18 "replicate 19 None"] by simp
  have "unat v < 2 ^ 64" using unsigned_less [of v] by simp
  then have "unat v < 16 ^ (nat 17 - 1)" by simp
  from WriteHex_loop_ok [of 17 ?buf0 "[]" v, OF _ _ c0 this]
  obtain tmp' p' buf' s' where r: "WriteHex_loop v 17 ?buf0 = Inr (tmp', p', buf')"
    "unat tmp' < 15" "1 \<le> p'" "nat p' < length buf'" "unat tmp' < 16 ^ (nat p' - 1)"
    "cstr_of (drop (Suc (nat p')) buf') = Some s'"
    "hex_digits (unat tmp') @ s' = hex_digits (unat v)"
    by auto
  have tail: "\<exists>p2 buf3.
      (if tmp' \<noteq> 0 then
         (case store buf' p' (lut ! unat (tmp' AND 0xF)) of
            Inl f \<Rightarrow> Inl f
          | Inr buf2 \<Rightarrow> Inr (p' - 1, buf2))
       else Inr (p', buf')) = Inr (p2, buf3)
      \<and> 1 \<le> p2 \<and> nat p2 < length buf3
      \<and> cstr_of (drop (Suc (nat p2)) buf3) = Some (hex_digits (unat v))"
  proof (cases "tmp' = 0")
    case True
    with r show ?thesis by (simp add: hex_digits_0)
  next
    case False
    then have nz: "unat tmp' \<noteq> 0" by (simp add: unat_eq_zero)
    let ?d = "lut ! unat (tmp' AND 0xF)"
    have d: "?d = lut ! unat tmp'" using r(2) by (simp add: unat_and_15)
    have dn: "?d \<noteq> NUL" unfolding d using r(2) by (intro lut_not_NUL) simp
    have p2: "2 \<le> p'"
    proof (rule ccontr)
      assume "\<not> 2 \<le> p'"
      with r(3) have "nat p' - 1 = 0" by simp
      with r(5) nz show False by simp
    qed
    have suc: "Suc (nat (p' - 1)) = nat p'" using p2 by simp
    have "cstr_of (drop (nat p') (buf'[nat p' := Some ?d])) = Some (?d # s')"
      using r(4,6) dn by (simp add: cstr_of_store)
    moreover have "?d # s' = hex_digits (unat v)"
      using r(7) nz r(2) unfolding d by (simp add: hex_digits_small)
    moreover have "p' < int (length buf')" and "nat (p' - 1) < length buf'"
      using r(3,4) by linarith+
    ultimately show ?thesis
      using False r(3) p2 by (simp add: store_def suc)
  qed
  then obtain p2 buf3 where t: "(if tmp' \<noteq> 0 then
         (case store buf' p' (lut ! unat (tmp' AND 0xF)) of
            Inl f \<Rightarrow> Inl f
          | Inr buf2 \<Rightarrow> Inr (p' - 1, buf2))
       else Inr (p', buf')) = Inr (p2, buf3)"
    "1 \<le> p2" "nat p2 < length buf3"
    "cstr_of (drop (Suc (nat p2)) buf3) = Some (hex_digits (unat v))"
    by blast
  let ?buf4 = "buf3[nat p2 := Some CHR ''x'']"
  let ?buf5 = "?buf4[nat (p2 - 1) := Some CHR ''0'']"
  have sx: "store buf3 p2 CHR ''x'' = Inr ?buf4" using t(2,3) by (simp add: store_def)
  have s0': "store ?buf4 (p2 - 1) CHR ''0'' = Inr ?buf5" using t(2,3) by (simp add: store_def)
  have suc: "Suc (nat (p2 - 1)) = nat p2" using t(2) by simp
  have cx: "cstr_of (drop (nat p2) ?buf4) = Some (CHR ''x'' # hex_digits (unat v))"
    using t(3,4) x_not_NUL by (simp add: cstr_of_store)
  have "nat (p2 - 1) < length ?buf4" using t(2,3) by simp
  from cstr_of_store [OF this zero_not_NUL]
  have "cstr_of (drop (nat (p2 - 1)) ?buf5) = Some (''0x'' @ hex_digits (unat v))"
    unfolding suc using cx by simp
  then have rd: "read_cstr ?buf5 (p2 - 1) = Some (''0x'' @ hex_digits (unat v))"
    using t(2) by (simp add: read_cstr_def)
  show "zydec_WriteHex v st = zydec_WriteRaw (''0x'' @ hex_digits (unat v)) st"
    unfolding zydec_WriteHex_def s0
    using r(1) t(1) sx s0' rd
    by (simp add: WriteRaw_scratch_def)
qed

lemma uint_by_sint: "uint (v :: 64 word) = sint v mod 2 ^ 64"
  using uint_sint [of v] by (simp add: take_bit_eq_mod)

lemma sint_range: "- (2 ^ 63) \<le> sint (v :: 64 word) \<and> sint v < 2 ^ 63"
  using sint_greater_eq [of v] sint_less [of v] by simp

lemma uint_nonneg:
  assumes "\<not> sint (v :: 64 word) < 0"
  shows "uint v = sint v"
proof -
  from assms sint_range [of v] have "0 \<le> sint v" "sint v < 2 ^ 64" by simp_all
  then have "sint v mod 2 ^ 64 = sint v" by (rule mod_pos_pos_trivial)
  then show ?thesis by (simp add: uint_by_sint)
qed

lemma uint_neg:
  assumes "sint (v :: 64 word) < 0"
  shows "uint (- v) = - sint v"
proof -
  have "uint (- v) = (- uint v) mod 2 ^ 64" by (simp add: uint_word_ariths)
  also have "\<dots> = (- (sint v mod 2 ^ 64)) mod 2 ^ 64" by (simp only: uint_by_sint)
  also have "\<dots> = (- sint v) mod 2 ^ 64" by (simp add: mod_minus_eq)
  also have "\<dots> = - sint v"
    using assms sint_range [of v] by (intro mod_pos_pos_trivial) simp_all
  finally show ?thesis .
qed

lemma nonneg_unat:
  assumes "\<not> sint (v :: 64 word) < 0"
  shows "unat v < 2 ^ 63"
proof -
  from uint_nonneg [OF assms] sint_range [of v] have "uint v < 2 ^ 63" by simp
  then show ?thesis by (simp add: unat_eq_nat_uint del: nat_uint_eq)
qed

lemma neg_unat:
  assumes "sint (v :: 64 word) < 0"
  shows "unat (- v) \<le> 2 ^ 63"
proof -
  from uint_neg [OF assms] sint_range [of v] have "uint (- v) \<le> 2 ^ 63" by simp
  then show ?thesis by (simp add: unat_eq_nat_uint del: nat_uint_eq)
qed

lemma WriteInt_eq:
  "zydec_WriteInt v =
     (if sint v < 0 then
        ERROR_CHECK (zydec_WriteRaw ''-'')
          (if sint v = - (2 ^ 63) then (\<lambda>st. Inl SignedNegationOverflow)
           else zydec_WriteRaw (dec_digits (unat (- v))))
      else zydec_WriteRaw (dec_digits (unat v)))"
proof (cases "sint v < 0")
  case True
  from neg_unat [OF True] have "unat (- v) < 10 ^ 19" by simp
  with True show ?thesis by (simp add: zydec_WriteInt_def WriteUInt_below)
next
  case False
  from nonneg_unat [OF False] have "unat v < 10 ^ 19" by simp
  with False show ?thesis by (simp add: zydec_WriteInt_def WriteUInt_below)
qed

text \<open>
  Off the value 0, and off the least value, the text that \<^verbatim>\<open>zydec_WriteInt\<close> writes is
  the signed decimal representation.
\<close>

lemma signed_decimal_text:
  assumes "v \<noteq> 0"
  shows "(if sint v < 0 then ''-'' @ dec_digits (unat (- v)) else dec_digits (unat v)) =
         signed_decimal (sint (v :: 64 word))"
proof (cases "sint v < 0")
  case True
  from uint_neg [OF True] have u: "unat (- v) = nat (- sint v)"
    by (simp add: unat_eq_nat_uint del: nat_uint_eq)
  from True have "nat (- sint v) \<noteq> 0" by simp
  with True u show ?thesis by (simp add: signed_decimal_def decimal_def)
next
  case False
  from uint_nonneg [OF False] have u: "unat v = nat (sint v)"
    by (simp add: unat_eq_nat_uint del: nat_uint_eq)
  from assms have "unat v \<noteq> 0" by (simp add: unat_eq_zero)
  with False u show ?thesis by (simp add: signed_decimal_def decimal_def)
qed

lemma return_bool_finish: "return_bool b = finish (Return b)"
  by (simp add: fun_eq_iff return_bool_def)

lemma ERROR_CHECK_return_True: "ERROR_CHECK (return_bool True) k = k"
  by (simp add: fun_eq_iff ERROR_CHECK_def return_bool_def)

lemma ERROR_CHECK_return_False: "ERROR_CHECK (return_bool False) k = return_bool False"
  by (simp add: fun_eq_iff ERROR_CHECK_def return_bool_def)

lemma ERROR_CHECK_then_True: "ERROR_CHECK a (return_bool True) = a"
  by (auto simp: fun_eq_iff ERROR_CHECK_def return_bool_def split: sum.splits)

lemma hex_digits_255: "hex_digits 255 = ''FF''"
  by (simp add: hex_digits_step hex_digits_0 lut_def)
lemma hex_digits_4096: "hex_digits 4096 = ''1000''"
  by (simp add: hex_digits_step hex_digits_0 lut_def)
lemma dec_digits_u32max: "dec_digits 4294967295 = ''4294967295''"
  by (simp add: dec_digits_step dec_digits_0)

section \<open>Facts about single instructions\<close>

lemma hex_digits_400010: "hex_digits 4194320 = ''400010''"
  by (simp add: hex_digits_step hex_digits_0 lut_def)

lemma WriteOperand_at_relative:
  assumes "op_type pOperand = ZYDIS_OPERAND_TYPE_IMMEDIATE"
    and "imm_is_relative (imm pOperand)"
  shows "WriteOperand_at (pOperand # rest) 0 virtualAddress =
         zydec_WriteRaw (''0x'' @ hex_digits (unat (virtualAddress + imm_value (imm pOperand))))"
proof (rule ext)
  fix st
  show "WriteOperand_at (pOperand # rest) 0 virtualAddress st =
        zydec_WriteRaw (''0x'' @ hex_digits (unat (virtualAddress + imm_value (imm pOperand)))) st"
    using assms
    by (simp add: WriteOperand_at_def operand_at_def zydec_WriteOperand_def
        ERROR_CHECK_then_True WriteHex_eq)
qed

lemma jump_if_zero_script:
  assumes "mnemonic pInstruction = ''JZ''"
    and "op_type pOperand = ZYDIS_OPERAND_TYPE_IMMEDIATE"
    and "imm_is_relative (imm pOperand)" and "imm_value (imm pOperand) = 0x10"
  shows "translate_switch pInstruction (pOperand # rest) 0x400000 =
         run_script [''if (zero_flag) goto '', ''0x400010'', ''; // if zero / equal'']
           (Return True)"
  using assms
  by (simp add: translate_switch_def Let_def WriteOperand_at_relative hex_digits_400010
      return_bool_finish)

lemma WriteRegister_valid:
  "reg < length RegisterNameLut \<Longrightarrow> zydec_WriteRegister reg = zydec_WriteRaw (RegisterNameLut ! reg)"
  by (simp add: zydec_WriteRegister_def ERROR_CHECK_then_True)

lemma WriteRegister_invalid:
  "length RegisterNameLut \<le> reg \<Longrightarrow> zydec_WriteRegister reg = return_bool False"
  by (simp add: zydec_WriteRegister_def)

lemma length_RegisterNameLut: "length RegisterNameLut = 266"
  by code_simp

lemma RegisterNameLut_NONE: "RegisterNameLut ! ZYDIS_REGISTER_NONE = []"
  by (simp add: RegisterNameLut_def ZYDIS_REGISTER_NONE_def)

lemma WriteUInt_scale: "zydec_WriteUInt (ucast (s :: 8 word)) = zydec_WriteRaw (dec_digits (unat s))"
proof -
  have u: "unat (ucast s :: 64 word) = unat s"
    by (simp add: unsigned_ucast_eq take_bit_nat_eq_self unsigned_less [of s, THEN less_trans])
  have "unat s < 2 ^ 8" using unsigned_less [of s] by simp
  then have "unat (ucast s :: 64 word) < 10 ^ 19" unfolding u by simp
  from WriteUInt_below [OF this] show ?thesis unfolding u .
qed

lemma displacement_operand_script:
  assumes "op_type pOperand = ZYDIS_OPERAND_TYPE_MEMORY"
    and "mem_type (mem pOperand) = ZYDIS_MEMOP_TYPE_MEM"
    and "disp_has_displacement (mem pOperand)"
    and "sint (disp_value (mem pOperand)) \<noteq> - (2 ^ 63)"
    and "mem_segment (mem pOperand) < length RegisterNameLut"
    and "mem_base (mem pOperand) < length RegisterNameLut"
  shows "\<exists>ts. zydec_WriteOperand pOperand virtualAddress = run_script ts (Return True)
           \<and> concat ts = ''*('' @ RegisterNameLut ! mem_segment (mem pOperand) @ '': ''
               @ RegisterNameLut ! mem_base (mem pOperand) @ '' + ''
               @ (if sint (disp_value (mem pOperand)) < 0
                  then ''-'' @ dec_digits (unat (- disp_value (mem pOperand)))
                  else dec_digits (unat (disp_value (mem pOperand))))
               @ '')''"
proof (cases "sint (disp_value (mem pOperand)) < 0")
  case neg: True
  show ?thesis
    by (rule exI [of _ "[''*('', RegisterNameLut ! mem_segment (mem pOperand), '': '',
          RegisterNameLut ! mem_base (mem pOperand), '' + '', ''-'',
          dec_digits (unat (- disp_value (mem pOperand))), '')'']"])
       (use assms neg in \<open>simp add: zydec_WriteOperand_def WriteRegister_valid
          WriteInt_eq ERROR_CHECK_then_True ERROR_CHECK_assoc
          return_bool_finish ERROR_CHECK_finish\<close>)
next
  case pos: False
  show ?thesis
    by (rule exI [of _ "[''*('', RegisterNameLut ! mem_segment (mem pOperand), '': '',
          RegisterNameLut ! mem_base (mem pOperand), '' + '',
          dec_digits (unat (disp_value (mem pOperand))), '')'']"])
       (use assms pos in \<open>simp add: zydec_WriteOperand_def WriteRegister_valid
          WriteInt_eq ERROR_CHECK_then_True ERROR_CHECK_assoc
          return_bool_finish ERROR_CHECK_finish\<close>)
qed

text \<open>
  What the formatter writes for a direct memory operand with a displacement, whatever the
  index register and the scale, the displacement 0 included and the least value excluded.
\<close>

lemma displacement_operand_written:
  assumes "op_type pOperand = ZYDIS_OPERAND_TYPE_MEMORY"
    and "mem_type (mem pOperand) = ZYDIS_MEMOP_TYPE_MEM"
    and "disp_has_displacement (mem pOperand)"
    and "sint (disp_value (mem pOperand)) \<noteq> - (2 ^ 63)"
    and "mem_segment (mem pOperand) < length RegisterNameLut"
    and "mem_base (mem pOperand) < length RegisterNameLut"
    and "writer_inv st"
    and "line = ''*('' @ RegisterNameLut ! mem_segment (mem pOperand) @ '': ''
               @ RegisterNameLut ! mem_base (mem pOperand) @ '' + ''
               @ (if sint (disp_value (mem pOperand)) < 0
                  then ''-'' @ dec_digits (unat (- disp_value (mem pOperand)))
                  else dec_digits (unat (disp_value (mem pOperand))))
               @ '')''"
    and "length line \<le> remainingSize st"
  shows "zydec_WriteOperand pOperand virtualAddress st = Inr (True, written st line)"
proof -
  from displacement_operand_script [OF assms(1-6), of virtualAddress]
  obtain ts where ts: "zydec_WriteOperand pOperand virtualAddress = run_script ts (Return True)"
    "concat ts = line"
    unfolding assms(8) by blast
  from assms(9) have "length (concat ts) \<le> remainingSize st" by (simp add: ts(2))
  from run_script_fits [OF assms(7) this, of "Return True"] show ?thesis
    by (simp add: ts)
qed

text \<open>
  With a displacement other than 0 (and than the least value) the text is the one the
  specification gives: segment, base and the signed decimal displacement, and no index.
\<close>

lemma displacement_operand_text:
  assumes "op_type pOperand = ZYDIS_OPERAND_TYPE_MEMORY"
    and "mem_type (mem pOperand) = ZYDIS_MEMOP_TYPE_MEM"
    and "disp_has_displacement (mem pOperand)"
    and "disp_value (mem pOperand) \<noteq> 0"
    and "sint (disp_value (mem pOperand)) \<noteq> - (2 ^ 63)"
    and "mem_segment (mem pOperand) < length RegisterNameLut"
    and "mem_base (mem pOperand) < length RegisterNameLut"
    and "writer_inv st"
    and "line = ''*('' @ RegisterNameLut ! mem_segment (mem pOperand) @ '': ''
               @ RegisterNameLut ! mem_base (mem pOperand) @ '' + ''
               @ signed_decimal (sint (disp_value (mem pOperand))) @ '')''"
    and "length line \<le> remainingSize st"
  shows "zydec_WriteOperand pOperand virtualAddress st = Inr (True, written st line)"
proof -
  have "line = ''*('' @ RegisterNameLut ! mem_segment (mem pOperand) @ '': ''
               @ RegisterNameLut ! mem_base (mem pOperand) @ '' + ''
               @ (if sint (disp_value (mem pOperand)) < 0
                  then ''-'' @ dec_digits (unat (- disp_value (mem pOperand)))
                  else dec_digits (unat (disp_value (mem pOperand))))
               @ '')''"
    unfolding assms(9) signed_decimal_text [OF assms(4)] ..
  from displacement_operand_written [OF assms(1,2,3,5,6,7,8) this assms(10)]
  show ?thesis .
qed

text \<open>
  Without a displacement, the index register takes its place, in parentheses and with the
  scale when the scale is not 1.
\<close>

lemma index_operand_text:
  assumes "op_type pOperand = ZYDIS_OPERAND_TYPE_MEMORY"
    and "mem_type (mem pOperand) = ZYDIS_MEMOP_TYPE_MEM"
    and "\<not> disp_has_displacement (mem pOperand)"
    and "mem_index (mem pOperand) \<noteq> ZYDIS_REGISTER_NONE"
    and "mem_index (mem pOperand) < length RegisterNameLut"
    and "mem_scale (mem pOperand) \<noteq> 0"
    and "mem_segment (mem pOperand) < length RegisterNameLut"
    and "mem_base (mem pOperand) < length RegisterNameLut"
    and "writer_inv st"
    and "line = ''*('' @ RegisterNameLut ! mem_segment (mem pOperand) @ '': ''
               @ RegisterNameLut ! mem_base (mem pOperand) @ '' + ''
               @ (if mem_scale (mem pOperand) \<noteq> 1
                  then ''('' @ RegisterNameLut ! mem_index (mem pOperand) @ '' * ''
                         @ decimal (unat (mem_scale (mem pOperand))) @ '')''
                  else RegisterNameLut ! mem_index (mem pOperand))
               @ '')''"
    and "length line \<le> remainingSize st"
  shows "zydec_WriteOperand pOperand virtualAddress st = Inr (True, written st line)"
proof -
  from assms(6) have dec: "decimal (unat (mem_scale (mem pOperand))) =
      dec_digits (unat (mem_scale (mem pOperand)))"
    by (simp add: decimal_def unat_eq_zero)
  have "\<exists>ts. zydec_WriteOperand pOperand virtualAddress = run_script ts (Return True)
           \<and> concat ts = line"
  proof (cases "mem_scale (mem pOperand) = 1")
    case one: True
    show ?thesis
      by (rule exI [of _ "[''*('', RegisterNameLut ! mem_segment (mem pOperand), '': '',
            RegisterNameLut ! mem_base (mem pOperand), '' + '',
            RegisterNameLut ! mem_index (mem pOperand), '')'']"])
         (use assms(1-5,7,8,10) one in \<open>simp add: zydec_WriteOperand_def WriteRegister_valid
            ERROR_CHECK_then_True ERROR_CHECK_return_True ERROR_CHECK_assoc
            return_bool_finish ERROR_CHECK_finish\<close>)
  next
    case scaled: False
    show ?thesis
      by (rule exI [of _ "[''*('', RegisterNameLut ! mem_segment (mem pOperand), '': '',
            RegisterNameLut ! mem_base (mem pOperand), '' + '', ''('',
            RegisterNameLut ! mem_index (mem pOperand), '' * '',
            dec_digits (unat (mem_scale (mem pOperand))), '')'', '')'']"])
         (use assms(1-5,7,8,10) scaled dec in \<open>simp add: zydec_WriteOperand_def
            WriteRegister_valid WriteUInt_scale ERROR_CHECK_then_True ERROR_CHECK_return_True
            ERROR_CHECK_assoc return_bool_finish ERROR_CHECK_finish\<close>)
  qed
  then obtain ts where ts: "zydec_WriteOperand pOperand virtualAddress = run_script ts (Return True)"
    "concat ts = line"
    by blast
  from assms(11) have "length (concat ts) \<le> remainingSize st" by (simp add: ts(2))
  from run_script_fits [OF assms(9) this, of "Return True"] show ?thesis
    by (simp add: ts)
qed

section \<open>The conditions of the conditional jumps\<close>

lemma writes_conditionI:
  assumes "\<And>pInstruction pOperands virtualAddress. mnemonic pInstruction = m \<Longrightarrow>
     \<exists>rest. translate_switch pInstruction pOperands virtualAddress =
       ERROR_CHECK (zydec_WriteRaw (''if ('' @ condition_text c @ '') goto '')) rest"
  shows "writes_condition m c"
  using assms by (simp add: writes_condition_def)

lemma jump_conditions:
  "writes_condition ''JB'' (Flag carry_flag)"
  "writes_condition ''JNB'' (Not (Flag carry_flag))"
  "writes_condition ''JBE'' (Either (Flag carry_flag) (Flag zero_flag))"
  "writes_condition ''JNBE'' (Both (Not (Flag carry_flag)) (Not (Flag zero_flag)))"
  "writes_condition ''JL'' (Differ (Flag sign_flag) (Flag overflow_flag))"
  "writes_condition ''JNL'' (Both (Flag sign_flag) (Flag overflow_flag))"
  "writes_condition ''JLE'' (Either (Flag zero_flag) (Differ (Flag sign_flag) (Flag overflow_flag)))"
  "writes_condition ''JNLE'' (Both (Not (Flag zero_flag)) (Same (Flag sign_flag) (Flag overflow_flag)))"
  "writes_condition ''JO'' (Flag overflow_flag)"
  "writes_condition ''JNO'' (Not (Flag overflow_flag))"
  "writes_condition ''JP'' (Flag parity_flag)"
  "writes_condition ''JNP'' (Not (Flag parity_flag))"
  "writes_condition ''JS'' (Flag sign_flag)"
  "writes_condition ''JNS'' (Not (Flag sign_flag))"
  "writes_condition ''JZ'' (Flag zero_flag)"
  "writes_condition ''JNZ'' (Not (Flag zero_flag))"
  by (rule writes_conditionI, simp add: translate_switch_def Let_def, blast)+

lemma complementary_jump_conditions:
  "negation_of (Not (Flag carry_flag)) (Flag carry_flag)"
  "negation_of (Both (Not (Flag carry_flag)) (Not (Flag zero_flag)))
     (Either (Flag carry_flag) (Flag zero_flag))"
  "negation_of (Both (Not (Flag zero_flag)) (Same (Flag sign_flag) (Flag overflow_flag)))
     (Either (Flag zero_flag) (Differ (Flag sign_flag) (Flag overflow_flag)))"
  "negation_of (Not (Flag overflow_flag)) (Flag overflow_flag)"
  "negation_of (Not (Flag parity_flag)) (Flag parity_flag)"
  "negation_of (Not (Flag sign_flag)) (Flag sign_flag)"
  "negation_of (Not (Flag zero_flag)) (Flag zero_flag)"
  by (auto simp: negation_of_def)

lemma not_less_no_negation:
  "\<not> negation_of (Both (Flag sign_flag) (Flag overflow_flag))
       (Differ (Flag sign_flag) (Flag overflow_flag))"
  by (auto simp: negation_of_def intro: exI [of _ "\<lambda>f. False"])

section \<open>The claims\<close>

text \<open>
  Claim C1. The hexadecimal formatter writes the prefix \<^verbatim>\<open>0x\<close> followed by the uppercase
  hexadecimal digits of the value without leading zeros, so 255 gives \<^verbatim>\<open>0xFF\<close> and 4096
  gives \<^verbatim>\<open>0x1000\<close>. For the value 0 the claim asks for \<^verbatim>\<open>0x0\<close>; the formatter hands the
  buffer writer \<^verbatim>\<open>0x\<close>, with no digit.
\<close>

theorem hex_of_zero_has_no_digit:
  "zydec_WriteHex 0 = zydec_WriteRaw ''0x''
   \<and> zydec_WriteHex 255 = zydec_WriteRaw ''0xFF''
   \<and> zydec_WriteHex 4096 = zydec_WriteRaw ''0x1000''"
  using WriteHex_eq [of 0] WriteHex_eq [of 255] WriteHex_eq [of 4096]
  by (simp add: hex_digits_0 hex_digits_255 hex_digits_4096)

text \<open>
  Claim C2. The unsigned decimal formatter writes the decimal digits of the value, most
  significant first, so 4294967295 gives \<^verbatim>\<open>4294967295\<close>. For the value 0 the claim asks for
  \<^verbatim>\<open>0\<close>; the formatter hands the buffer writer the empty string.
\<close>

theorem decimal_of_zero_is_empty:
  "zydec_WriteUInt 0 = zydec_WriteRaw []
   \<and> zydec_WriteUInt 4294967295 = zydec_WriteRaw ''4294967295''"
  using WriteUInt_below [of 0] WriteUInt_below [of 4294967295]
  by (simp add: dec_digits_0 dec_digits_u32max)

text \<open>
  Claim C3, as amended. Translating a JUMP-IF-ZERO instruction whose single operand is a
  relative immediate with value 0x10, at virtual address 0x400000, succeeds for every
  buffer capacity of at least 49 and leaves the line
  \<^verbatim>\<open>if (zero_flag) goto 0x400010; // if zero / equal\<close> in the buffer. The comment the claim
  gives, \<^verbatim>\<open>// if zero / not equal\<close>, is not the one the translator writes.
\<close>

theorem jump_if_zero_line:
  assumes "49 \<le> bufferCapacity" and "bufferCapacity \<le> length buf"
  shows "rendered_line (zydec_TranslateInstructionWithoutContext (Some (instruction ''JZ'' 1))
           (Some [relative_immediate 0x10]) 1 0x400000 (Some buf) bufferCapacity (Some h)) =
         Some ''if (zero_flag) goto 0x400010; // if zero / equal''"
proof -
  let ?line = "''if (zero_flag) goto 0x400010; // if zero / equal''"
  let ?st = "entry_state buf bufferCapacity"
  have sw: "translate_switch (instruction ''JZ'' 1) [relative_immediate 0x10] 0x400000 =
         run_script [''if (zero_flag) goto '', ''0x400010'', ''; // if zero / equal'']
           (Return True)"
    by (rule jump_if_zero_script) (simp_all add: instruction_def relative_immediate_def)
  from assms have c: "bufferCapacity \<noteq> 0" and ne: "buf \<noteq> []" by auto
  have n: "(1::nat) \<noteq> 0" by simp
  have inv: "writer_inv ?st"
    using c assms(2) by (rule entry_state_inv)
  have fits: "length (concat [''if (zero_flag) goto '', ''0x400010'', ''; // if zero / equal''])
      \<le> remainingSize ?st"
    using assms(1) by (simp add: entry_state_def)
  have run: "translate_switch (instruction ''JZ'' 1) [relative_immediate 0x10] 0x400000 ?st =
      Inr (True, written ?st ?line)"
    unfolding sw run_script_fits [OF inv fits] by simp
  have nul: "NUL \<notin> set ?line" by (simp add: NUL_def)
  have lt: "length ?line < length buf" using assms by simp
  from buffer_written_entry [OF ne nul lt, of bufferCapacity]
  have "c_str (buffer (written ?st ?line)) = ?line" by simp
  then show ?thesis
    unfolding translate_entry [OF n c ne] run by (simp add: rendered_line_def)
qed

theorem jump_if_zero_line_witness:
  "rendered_line (zydec_TranslateInstructionWithoutContext (Some (instruction ''JZ'' 1))
     (Some [relative_immediate 0x10]) 1 0x400000 (Some (replicate 64 CHR ''#'')) 64
     (Some False)) =
   Some ''if (zero_flag) goto 0x400010; // if zero / equal''"
  using jump_if_zero_line [of 64 "replicate 64 CHR ''#''" False] by simp

theorem jump_if_zero_comment_counterexample:
  "rendered_line (zydec_TranslateInstructionWithoutContext (Some (instruction ''JZ'' 1))
     (Some [relative_immediate 0x10]) 1 0x400000 (Some (replicate 64 CHR ''#'')) 64
     (Some False)) \<noteq>
   Some ''if (zero_flag) goto 0x400010; // if zero / not equal''"
  by code_simp

text \<open>
  Claim C4. Take any instruction that the translator renders, in some buffer that is as long
  as the capacity passed, and let \<open>L\<close> be the length of the line it leaves there. Then with
  a buffer of capacity \<open>L + 1\<close> the translator succeeds, the buffer holds the same line and
  its byte \<open>L\<close> is the terminator; with a buffer of capacity \<open>L\<close> the translator returns
  false.
\<close>

theorem capacity_boundary:
  assumes run: "zydec_TranslateInstructionWithoutContext (Some pInstruction) (Some pOperands)
           operandCount virtualAddress (Some buf) bufferCapacity (Some h) =
         Inr (True, Some buf', h')"
    and cap: "bufferCapacity \<le> length buf"
    and L: "L = length (c_str buf')"
    and b1: "length buf1 = L + 1"
    and b2: "length buf2 = L"
  shows "(\<exists>buf1'. zydec_TranslateInstructionWithoutContext (Some pInstruction) (Some pOperands)
           operandCount virtualAddress (Some buf1) (L + 1) (Some h) =
             Inr (True, Some buf1', Some True)
           \<and> c_str buf1' = c_str buf' \<and> buf1' ! L = NUL \<and> length buf1' = L + 1)
       \<and> (\<exists>buf2' h2. zydec_TranslateInstructionWithoutContext (Some pInstruction)
           (Some pOperands) operandCount virtualAddress (Some buf2) L (Some h) =
             Inr (False, buf2', h2))"
proof -
  have n: "operandCount \<noteq> 0" and c: "bufferCapacity \<noteq> 0"
    using run by (auto simp: zydec_TranslateInstructionWithoutContext_def split: if_splits)
  from c cap have ne: "buf \<noteq> []" by auto
  from scripted_translate_switch [of pInstruction pOperands virtualAddress]
  obtain ts e where ts: "\<forall>t \<in> set ts. NUL \<notin> set t"
    and sw: "translate_switch pInstruction pOperands virtualAddress = run_script ts e"
    by (auto simp: scripted_def)
  let ?line = "concat ts"
  have nul: "NUL \<notin> set ?line" using ts by auto
  have inv: "writer_inv (entry_state buf bufferCapacity)" using c cap by (rule entry_state_inv)
  have fits: "length ?line \<le> bufferCapacity - 1"
  proof (rule ccontr)
    assume "\<not> length ?line \<le> bufferCapacity - 1"
    then have "remainingSize (entry_state buf bufferCapacity) < length ?line"
      by (simp add: entry_state_def)
    from run_script_short [OF inv this, of e] run show False
      by (auto simp: translate_entry [OF n c ne] sw)
  qed
  then have fits': "length ?line \<le> remainingSize (entry_state buf bufferCapacity)"
    by (simp add: entry_state_def)
  have fin: "finish e (written (entry_state buf bufferCapacity) ?line) =
      Inr (True, written (entry_state buf bufferCapacity) ?line)
      \<and> buf' = buffer (written (entry_state buf bufferCapacity) ?line) \<and> e = Return True"
    using run finish_True [of e "written (entry_state buf bufferCapacity) ?line"]
    by (auto simp: translate_entry [OF n c ne] sw run_script_fits [OF inv fits']
        split: sum.splits)
  from fits c cap have "length ?line < length buf" by simp
  with buffer_written_entry [OF ne nul, of bufferCapacity] fin
  have line: "c_str buf' = ?line" by simp
  with L have Lline: "L = length ?line" by simp
  have ne1: "buf1 \<noteq> []" using b1 by auto
  have inv1: "writer_inv (entry_state buf1 (Suc L))"
    using b1 by (intro entry_state_inv) simp_all
  have fits1: "length ?line \<le> remainingSize (entry_state buf1 (Suc L))"
    by (simp add: entry_state_def Lline)
  have lt1: "length ?line < length buf1" using b1 Lline by simp
  let ?st1 = "written (entry_state buf1 (L + 1)) ?line"
  have e: "e = Return True" using fin by simp
  have call1: "zydec_TranslateInstructionWithoutContext (Some pInstruction)
           (Some pOperands) operandCount virtualAddress (Some buf1) (L + 1) (Some h) =
             Inr (True, Some (buffer ?st1), Some (hasTranslation ?st1))"
    using n ne1 by (simp add: translate_entry sw run_script_fits [OF inv1 fits1] e)
  have ht1: "hasTranslation ?st1 = True" by (simp add: written_def entry_state_def)
  have first: "\<exists>buf1'. zydec_TranslateInstructionWithoutContext (Some pInstruction)
           (Some pOperands) operandCount virtualAddress (Some buf1) (L + 1) (Some h) =
             Inr (True, Some buf1', Some True)
           \<and> c_str buf1' = c_str buf' \<and> buf1' ! L = NUL \<and> length buf1' = L + 1"
    using buffer_written_entry [OF ne1 nul lt1, of "L + 1"] call1 ht1 line Lline b1
    by simp
  have second: "\<exists>buf2' h2. zydec_TranslateInstructionWithoutContext (Some pInstruction)
           (Some pOperands) operandCount virtualAddress (Some buf2) L (Some h) =
             Inr (False, buf2', h2)"
  proof (cases "L = 0")
    case True
    then show ?thesis by (simp add: zydec_TranslateInstructionWithoutContext_def)
  next
    case False
    with b2 have ne2: "buf2 \<noteq> []" by auto
    have inv2: "writer_inv (entry_state buf2 L)"
      using False b2 by (intro entry_state_inv) simp_all
    have short: "remainingSize (entry_state buf2 L) < length ?line"
      using False by (simp add: entry_state_def Lline)
    from run_script_short [OF inv2 short, of e] show ?thesis
      using n False ne2 by (auto simp: translate_entry sw)
  qed
  from first second show ?thesis by blast
qed

theorem capacity_boundary_witness:
  "(\<exists>buf1'. zydec_TranslateInstructionWithoutContext (Some (instruction ''JZ'' 1))
       (Some [relative_immediate 0x10]) 1 0x400000 (Some (replicate 49 CHR ''#'')) (48 + 1)
       (Some False) = Inr (True, Some buf1', Some True)
     \<and> c_str buf1' = ''if (zero_flag) goto 0x400010; // if zero / equal''
     \<and> buf1' ! 48 = NUL \<and> length buf1' = 48 + 1)
   \<and> (\<exists>buf2' h2. zydec_TranslateInstructionWithoutContext (Some (instruction ''JZ'' 1))
       (Some [relative_immediate 0x10]) 1 0x400000 (Some (replicate 48 CHR ''#'')) 48
       (Some False) = Inr (False, buf2', h2))"
proof -
  let ?buf' = "''if (zero_flag) goto 0x400010; // if zero / equal'' @ NUL # replicate 15 CHR ''#''"
  have run: "zydec_TranslateInstructionWithoutContext (Some (instruction ''JZ'' 1))
       (Some [relative_immediate 0x10]) 1 0x400000 (Some (replicate 64 CHR ''#'')) 64
       (Some False) = Inr (True, Some ?buf', Some True)"
    by code_simp
  have cap: "(64::nat) \<le> length (replicate 64 CHR ''#'')" by simp
  have line: "c_str ?buf' = ''if (zero_flag) goto 0x400010; // if zero / equal''"
    by code_simp
  have L: "(48::nat) = length (c_str ?buf')" unfolding line by simp
  have b1: "length (replicate 49 CHR ''#'') = 48 + 1" by simp
  have b2: "length (replicate 48 CHR ''#'') = 48" by simp
  from capacity_boundary [OF run cap L b1 b2] show ?thesis unfolding line by simp
qed

text \<open>
  Claim C5. For an instruction whose mnemonic is none of the case labels of the translator,
  and arguments that pass the entry check (with a buffer of at least one byte), the
  translator returns false, leaves false in the cell behind \<^verbatim>\<open>pHasTranslation\<close>, and the
  buffer holds the empty string: its first byte is the terminator and every other byte is
  as the caller left it.
\<close>

theorem unsupported_mnemonic:
  assumes "mnemonic pInstruction \<notin> set recognized_mnemonics"
    and "operandCount \<noteq> 0" and "bufferCapacity \<noteq> 0" and "buf \<noteq> []"
  shows "zydec_TranslateInstructionWithoutContext (Some pInstruction) (Some pOperands)
           operandCount virtualAddress (Some buf) bufferCapacity (Some h) =
         Inr (False, Some (buf[0 := NUL]), Some False)
         \<and> c_str (buf[0 := NUL]) = []
         \<and> drop 1 (buf[0 := NUL]) = drop 1 buf"
proof -
  from assms(4) obtain c cs where buf: "buf = c # cs" by (cases buf) auto
  have "c_str (buf[0 := NUL]) = []" by (simp add: buf c_str_def)
  moreover have "drop 1 (buf[0 := NUL]) = drop 1 buf" by (simp add: buf)
  ultimately show ?thesis
    using assms
    by (simp add: translate_entry translate_switch_default entry_state_def)
qed

theorem unsupported_mnemonic_witness:
  "mnemonic (instruction ''NOP'' 1) \<notin> set recognized_mnemonics
   \<and> zydec_TranslateInstructionWithoutContext (Some (instruction ''NOP'' 1))
       (Some [register_operand 53]) 1 0 (Some ''abcdefgh'') 8 (Some True) =
     Inr (False, Some (''abcdefgh''[0 := NUL]), Some False)
   \<and> c_str (''abcdefgh''[0 := NUL]) = []"
proof -
  have m: "mnemonic (instruction ''NOP'' 1) \<notin> set recognized_mnemonics"
    by code_simp
  have "(1::nat) \<noteq> 0" and "(8::nat) \<noteq> 0" and "''abcdefgh'' \<noteq> []" by simp_all
  from unsupported_mnemonic [OF m this, of "[register_operand 53]" 0 True] m
  show ?thesis by simp
qed

text \<open>
  Claim C6. The claim asks that a direct memory operand (neither address generation nor
  indirect pair) with both a displacement and an index register is rendered with the
  displacement clause only, \<^verbatim>\<open> + \<close> and the displacement in signed decimal, the index
  being dropped. The index is dropped; but for the displacement 0 the formatter writes
  \<^verbatim>\<open>*(segment: base + )\<close>, a displacement clause with no number in it, where the claim
  has \<^verbatim>\<open> + 0\<close>. For the displacement \<open>-8\<close> it writes the clause of the claim.
\<close>

theorem zero_displacement_has_no_digit:
  "zydec_WriteOperand
     (memory_operand \<lparr>mem_type = ZYDIS_MEMOP_TYPE_MEM, mem_segment = 200, mem_base = 60,
        mem_index = 61, mem_scale = 4, disp_has_displacement = True, disp_value = 0\<rparr>)
     0 (entry_state (replicate 40 CHR ''#'') 40) =
   Inr (True, written (entry_state (replicate 40 CHR ''#'') 40) ''*(stack_segment: (i64)di + )'')
   \<and> zydec_WriteOperand
     (memory_operand \<lparr>mem_type = ZYDIS_MEMOP_TYPE_MEM, mem_segment = 200, mem_base = 60,
        mem_index = 61, mem_scale = 4, disp_has_displacement = True, disp_value = - 8\<rparr>)
     0 (entry_state (replicate 40 CHR ''#'') 40) =
   Inr (True, written (entry_state (replicate 40 CHR ''#'') 40) ''*(stack_segment: (i64)di + -8)'')"
proof -
  let ?st = "entry_state (replicate 40 CHR ''#'') 40"
  have seg: "RegisterNameLut ! 200 = ''stack_segment''" and base: "RegisterNameLut ! 60 = ''(i64)di''"
    by code_simp+
  have inv: "writer_inv ?st" by (rule entry_state_inv) simp_all
  have zero: "zydec_WriteOperand
     (memory_operand \<lparr>mem_type = ZYDIS_MEMOP_TYPE_MEM, mem_segment = 200, mem_base = 60,
        mem_index = 61, mem_scale = 4, disp_has_displacement = True, disp_value = 0\<rparr>)
     0 ?st = Inr (True, written ?st ''*(stack_segment: (i64)di + )'')"
    by (rule displacement_operand_written [OF _ _ _ _ _ _ inv])
       (simp_all add: memory_operand_def length_RegisterNameLut entry_state_def seg base
          dec_digits_0)
  have minus: "zydec_WriteOperand
     (memory_operand \<lparr>mem_type = ZYDIS_MEMOP_TYPE_MEM, mem_segment = 200, mem_base = 60,
        mem_index = 61, mem_scale = 4, disp_has_displacement = True, disp_value = - 8\<rparr>)
     0 ?st = Inr (True, written ?st ''*(stack_segment: (i64)di + -8)'')"
    by (rule displacement_operand_written [OF _ _ _ _ _ _ inv])
       (simp_all add: memory_operand_def length_RegisterNameLut entry_state_def seg base
          dec_digits_step dec_digits_0)
  from zero minus show ?thesis ..
qed

text \<open>
  Claim C7. Whenever the instruction pointer is null, the operand list is null, the operand
  count is zero, the buffer is null or the buffer capacity is zero, the translator returns
  false, and neither the cell behind \<^verbatim>\<open>pHasTranslation\<close> nor the buffer is written: both
  are returned as they were passed in.
\<close>

theorem precondition_violation:
  assumes "pInstruction = None \<or> pOperands = None \<or> operandCount = 0 \<or> buf = None
           \<or> bufferCapacity = 0"
  shows "zydec_TranslateInstructionWithoutContext pInstruction pOperands operandCount
           virtualAddress buf bufferCapacity pHasTranslation =
         Inr (False, buf, pHasTranslation)"
  using assms by (auto simp: zydec_TranslateInstructionWithoutContext_def)

theorem precondition_violation_witness:
  "zydec_TranslateInstructionWithoutContext (Some (instruction ''MOV'' 2))
     (Some [register_operand 53, register_operand 54]) 2 0 (Some ''abcdefgh'') 0 (Some False) =
   Inr (False, Some ''abcdefgh'', Some False)"
  using precondition_violation [of "Some (instruction ''MOV'' 2)"
      "Some [register_operand 53, register_operand 54]" 2 "Some ''abcdefgh''" 0 0 "Some False"]
  by simp

text \<open>
  Claim C8, as amended. For a register id within the bounds of the name table the resolver
  writes the name of the table when the name is not longer than the remaining capacity,
  and returns false, writing nothing, when it is longer; the entry of "no register" is the
  empty string, which always fits. For a register id outside the bounds it returns false.
  The table has 266 entries. The claim has the resolver never fail within the bounds: it
  does when the capacity is used up.
\<close>

theorem register_resolver:
  assumes "writer_inv st"
  shows "zydec_WriteRegister reg st =
           (if length RegisterNameLut \<le> reg then Inr (False, st)
            else if length (RegisterNameLut ! reg) \<le> remainingSize st
              then Inr (True, written st (RegisterNameLut ! reg))
            else Inr (False, st))
         \<and> zydec_WriteRegister ZYDIS_REGISTER_NONE st = Inr (True, st)
         \<and> RegisterNameLut ! ZYDIS_REGISTER_NONE = [] \<and> length RegisterNameLut = 266"
proof -
  have none: "ZYDIS_REGISTER_NONE < length RegisterNameLut"
    by (simp add: ZYDIS_REGISTER_NONE_def length_RegisterNameLut)
  show ?thesis
    using assms none
    by (simp add: WriteRegister_valid WriteRegister_invalid WriteRaw_inv return_bool_def
        RegisterNameLut_NONE length_RegisterNameLut written_Nil not_le)
qed

theorem register_resolver_witness:
  "zydec_WriteRegister 53 (entry_state (replicate 8 CHR ''#'') 8) =
     Inr (True, written (entry_state (replicate 8 CHR ''#'') 8) ''(i64)a'')
   \<and> zydec_WriteRegister 266 (entry_state (replicate 8 CHR ''#'') 8) =
     Inr (False, entry_state (replicate 8 CHR ''#'') 8)"
proof -
  have inv: "writer_inv (entry_state (replicate 8 CHR ''#'') 8)"
    by (rule entry_state_inv) simp_all
  have name: "RegisterNameLut ! 53 = ''(i64)a''" by code_simp
  from register_resolver [OF inv, of 53] register_resolver [OF inv, of 266]
  show ?thesis by (simp add: name entry_state_def)
qed

theorem register_resolver_counterexample:
  "1 < length RegisterNameLut
   \<and> zydec_WriteRegister 1 (entry_state ''#'' 1) = Inr (False, entry_state ''#'' 1)"
  by code_simp

text \<open>
  Claim C9. The claim asks that the condition written for a "not" variant of a conditional
  jump is the negation of the condition of its counterpart. For "less" the translator
  writes \<^verbatim>\<open>sign_flag != overflow_flag\<close>; for "not less" it writes
  \<^verbatim>\<open>sign_flag && overflow_flag\<close>, which is not the negation: with both flags clear
  both conditions are false.
\<close>

theorem not_less_is_not_the_negation_of_less:
  "rendered_line (zydec_TranslateInstructionWithoutContext (Some (instruction ''JL'' 1))
     (Some [relative_immediate 0x10]) 1 0x400000 (Some (replicate 64 CHR ''#'')) 64
     (Some False)) =
     Some (''if ('' @ condition_text (Differ (Flag sign_flag) (Flag overflow_flag))
           @ '') goto 0x400010; // if less'')
   \<and> rendered_line (zydec_TranslateInstructionWithoutContext (Some (instruction ''JNL'' 1))
     (Some [relative_immediate 0x10]) 1 0x400000 (Some (replicate 64 CHR ''#'')) 64
     (Some False)) =
     Some (''if ('' @ condition_text (Both (Flag sign_flag) (Flag overflow_flag))
           @ '') goto 0x400010; // if not less'')
   \<and> holds (\<lambda>f. False) (Both (Flag sign_flag) (Flag overflow_flag))
       = holds (\<lambda>f. False) (Differ (Flag sign_flag) (Flag overflow_flag))"
  by code_simp

text \<open>
  Claim C10. The claim asks that every store into the 20-byte scratch array of the unsigned
  decimal formatter is in bounds. For a value of 20 decimal digits the nineteen stores of
  the loop fill the indices 18 down to 0, and the store of the leading digit goes to the
  index \<open>-1\<close>, before the start of the array.
\<close>

theorem scratch_store_before_start:
  "zydec_WriteUInt 10000000000000000000 st = Inl (ScratchStoreOutOfBounds (- 1))
   \<and> zydec_WriteUInt 18446744073709551615 st = Inl (ScratchStoreOutOfBounds (- 1))"
  using WriteUInt_overrun [of 10000000000000000000 st]
    WriteUInt_overrun [of 18446744073709551615 st]
  by simp

end
